theory Spec2Isabelle
  imports Complex_Main
begin

section \<open>Numbers\<close>

text \<open>
  The source is TypeScript (\<^verbatim>\<open>src/glitch.ts\<close>). Its \<^verbatim>\<open>number\<close> values are modelled by
  \<^typ>\<open>real\<close>. Arithmetic is exact, except in the three samples of \<^verbatim>\<open>renderScanline\<close>,
  whose range depends on how the doubles round: there every operation is followed by
  \<open>fl\<close>, the rounding to the nearest double. \<^verbatim>\<open>NaN\<close> and the infinities are not
  represented. Values that the source makes integral (a result of \<^verbatim>\<open>Math.floor\<close> or of
  \<^verbatim>\<open>>>\<close>, the viewport size) are \<^typ>\<open>int\<close>.

  \<^verbatim>\<open>x >> n\<close> converts \<^verbatim>\<open>x\<close> to a signed 32-bit integer (the fraction is dropped, that is
  rounding is towards zero, then the value wraps modulo \<open>2^32\<close>) and shifts it
  arithmetically by \<^verbatim>\<open>n\<close> modulo 32 bits.
\<close>

definition trunc :: "real \<Rightarrow> int" where
  "trunc x = (if 0 \<le> x then \<lfloor>x\<rfloor> else \<lceil>x\<rceil>)"

definition ToInt32 :: "real \<Rightarrow> int" where
  "ToInt32 x = (let m = trunc x mod 2 ^ 32 in if 2 ^ 31 \<le> m then m - 2 ^ 32 else m)"

definition shr :: "real \<Rightarrow> nat \<Rightarrow> int" where
  "shr x n = ToInt32 x div 2 ^ (n mod 32)"

text \<open>
  A double has a significand of 53 bits: in the binade \<open>[2^e, 2^(e+1))\<close> the doubles are
  the multiples of \<open>2^(e-52)\<close>, and below the smallest normal double, \<open>2^(-1022)\<close>, the
  multiples of \<open>2^(-1074)\<close>. The result of an arithmetic operation is the double nearest
  to the exact result, and of two equally near ones the one with the even significand.
  Overflow to an infinity (from \<open>2^1024\<close> on) is not represented.
\<close>

definition round_half_even :: "real \<Rightarrow> int" where
  "round_half_even q =
     (let f = \<lfloor>q\<rfloor>; d = q - of_int f
      in if d < 1 / 2 then f else if 1 / 2 < d then f + 1 else if even f then f else f + 1)"

definition binade :: "real \<Rightarrow> int" where
  "binade x = max \<lfloor>log 2 \<bar>x\<bar>\<rfloor> (- 1022)"

definition ulp :: "real \<Rightarrow> real" where
  "ulp x = 2 powr (of_int (binade x) - 52)"

definition fl :: "real \<Rightarrow> real" where
  "fl x = ulp x * of_int (round_half_even (x / ulp x))"

text \<open>The doubles are the values that rounding leaves as they are.\<close>

definition is_double :: "real \<Rightarrow> bool" where
  "is_double x = (fl x = x)"

section \<open>The host: viewport, drawing surface, random source\<close>

text \<open>
  What the browser supplies is a parameter of the model. \<open>random h n\<close> is the value the
  \<open>n\<close>-th call of \<^verbatim>\<open>Math.random()\<close> returns; \<open>measureText h f t\<close> is the width of the text
  \<open>t\<close> in the font \<open>f\<close>; \<open>getImageData h sx sy sw sh\<close> is the byte buffer read from the
  surface; \<open>numberToString h\<close> is the conversion a template literal applies to a number.
  The mount point and the 2D context are taken to exist, and the surface operations to
  succeed.
\<close>

record host =
  offsetWidth :: int
  offsetHeight :: int
  measureText :: "string \<Rightarrow> string \<Rightarrow> real"
  getImageData :: "int \<Rightarrow> int \<Rightarrow> int \<Rightarrow> int \<Rightarrow> nat list"
  numberToString :: "real \<Rightarrow> string"
  random :: "nat \<Rightarrow> real"

datatype compositeOp = SourceOver | Lighter | Darker | Xor

text \<open>
  A drawing call that paints, with the state of the context it was painted under:
  \<open>FillText t x y style mode alpha\<close> is \<^verbatim>\<open>fillText(t, x, y)\<close> under fill style \<open>style\<close>,
  compositing mode \<open>mode\<close> and global alpha \<open>alpha\<close>.
\<close>

datatype draw_call =
    ClearRect real real real real
  | FillText string real real string compositeOp real
  | PutImageData "nat list" int int
  | ResetBitmap

record context2d =
  ctx_font :: string
  fillStyle :: string
  globalAlpha :: real
  globalCompositeOperation :: compositeOp
  textAlign :: string
  calls :: "draw_call list"

record canvas_element =
  cv_width :: int
  cv_height :: int

definition default_context :: context2d where
  "default_context =
     \<lparr>ctx_font = ''10px sans-serif'', fillStyle = ''#000000'', globalAlpha = 1,
      globalCompositeOperation = SourceOver, textAlign = ''start'', calls = []\<rparr>"

definition clearRect :: "real \<Rightarrow> real \<Rightarrow> real \<Rightarrow> real \<Rightarrow> context2d \<Rightarrow> context2d" where
  "clearRect x y w h c = c\<lparr>calls := calls c @ [ClearRect x y w h]\<rparr>"

definition fillText :: "string \<Rightarrow> real \<Rightarrow> real \<Rightarrow> context2d \<Rightarrow> context2d" where
  "fillText t x y c =
     c\<lparr>calls := calls c @
        [FillText t x y (fillStyle c) (globalCompositeOperation c) (globalAlpha c)]\<rparr>"

definition putImageData :: "nat list \<Rightarrow> int \<Rightarrow> int \<Rightarrow> context2d \<Rightarrow> context2d" where
  "putImageData d x y c = c\<lparr>calls := calls c @ [PutImageData d x y]\<rparr>"

text \<open>
  Assigning \<^verbatim>\<open>canvas.width\<close> or \<^verbatim>\<open>canvas.height\<close> clears the bitmap and puts the context
  back into its default state.
\<close>

definition reset_context :: "context2d \<Rightarrow> context2d" where
  "reset_context c = default_context\<lparr>calls := calls c @ [ResetBitmap]\<rparr>"

subsection \<open>What the drawing calls do to the pixels\<close>

text \<open>
  A pixel is a colour with premultiplied alpha: red, green, blue and alpha, each between 0
  and 1. \<open>composite m s d\<close> is the pixel that results from drawing the source pixel \<open>s\<close>
  onto the pixel \<open>d\<close> under the compositing mode \<open>m\<close>: \<open>source-over\<close> lets the destination
  show through where the source is not opaque, \<open>lighter\<close> adds source and destination up
  to the limit 1, \<open>xor\<close> keeps each where the other is transparent. \<open>darker\<close> is not a
  mode of the canvas and has no equation.
\<close>

type_synonym rgba = "real \<times> real \<times> real \<times> real"

definition transparent :: rgba where
  "transparent = (0, 0, 0, 0)"


fun composite :: "compositeOp \<Rightarrow> rgba \<Rightarrow> rgba \<Rightarrow> rgba" where
  "composite SourceOver (sr, sg, sb, sa) (dr, dg, db, da) =
     (sr + dr * (1 - sa), sg + dg * (1 - sa), sb + db * (1 - sa), sa + da * (1 - sa))"
| "composite Lighter (sr, sg, sb, sa) (dr, dg, db, da) =
     (min 1 (sr + dr), min 1 (sg + dg), min 1 (sb + db), min 1 (sa + da))"
| "composite Xor (sr, sg, sb, sa) (dr, dg, db, da) =
     (sr * (1 - da) + dr * (1 - sa), sg * (1 - da) + dg * (1 - sa),
      sb * (1 - da) + db * (1 - sa), sa * (1 - da) + da * (1 - sa))"

text \<open>
  The bitmap of the canvas gives every pixel, named by the integer coordinates of its
  upper left corner, its colour. \<open>paint ink c b\<close> is the bitmap after the drawing call
  \<open>c\<close> on the bitmap \<open>b\<close>. \<^verbatim>\<open>clearRect\<close> makes the pixels of the rectangle transparent;
  \<^verbatim>\<open>fillText\<close> composites the image of the text, \<open>ink c\<close>, onto the bitmap under the mode of
  the call (the shapes of the glyphs are the browser's: \<open>ink\<close> is a parameter);
  \<^verbatim>\<open>putImageData\<close> stores the bytes of a row, four to a pixel, as they are; a reset of the
  bitmap makes every pixel transparent. \<open>surface ink cs\<close> is the bitmap after the calls
  \<open>cs\<close> on a new canvas.
\<close>

type_synonym bitmap = "int \<times> int \<Rightarrow> rgba"

definition decode :: "nat \<Rightarrow> nat \<Rightarrow> nat \<Rightarrow> nat \<Rightarrow> rgba" where
  "decode r g b a =
     (real r / 255 * (real a / 255), real g / 255 * (real a / 255),
      real b / 255 * (real a / 255), real a / 255)"

fun paint :: "(draw_call \<Rightarrow> bitmap) \<Rightarrow> draw_call \<Rightarrow> bitmap \<Rightarrow> bitmap" where
  "paint ink (ClearRect x y w h) b =
     (\<lambda>(px, py).
        if x \<le> of_int px \<and> of_int px + 1 \<le> x + w \<and> y \<le> of_int py \<and> of_int py + 1 \<le> y + h
        then transparent else b (px, py))"
| "paint ink (FillText t x y style mode a) b =
     (\<lambda>p. composite mode (ink (FillText t x y style mode a) p) (b p))"
| "paint ink (PutImageData d x y) b =
     (\<lambda>(px, py).
        if py = y \<and> x \<le> px \<and> 4 * nat (px - x) + 3 < length d
        then (let i = 4 * nat (px - x)
              in decode (d ! i) (d ! (i + 1)) (d ! (i + 2)) (d ! (i + 3)))
        else b (px, py))"
| "paint ink ResetBitmap b = (\<lambda>p. transparent)"

definition surface :: "(draw_call \<Rightarrow> bitmap) \<Rightarrow> draw_call list \<Rightarrow> bitmap" where
  "surface ink cs = foldl (\<lambda>b c. paint ink c b) (\<lambda>p. transparent) cs"

section \<open>The Glitcher\<close>

datatype error = Error string

record options =
  opt_text :: string
  opt_fontFamily :: "string option"
  opt_fontWeight :: "real option"
  opt_phaseStep :: "real option"
  opt_alphaMin :: "real option"
  opt_amplitudeBase :: "real option"
  opt_amplitudeRange :: "real option"
  opt_glitchAmplitude :: "real option"
  opt_glitchThreshold :: "real option"

text \<open>
  The fields of the class, in its order. \<open>this_text\<close> and \<open>this_context\<close> are the fields
  \<^verbatim>\<open>text\<close> and \<^verbatim>\<open>context\<close>. \<open>drawn\<close> is not a field of the class: it counts the values
  taken from \<^verbatim>\<open>Math.random()\<close> so far.
\<close>

record glitcher =
  this_text :: string
  fontFamily :: string
  fontWeight :: real
  textSize :: int
  canvas :: "canvas_element option"
  this_context :: context2d
  width :: int
  height :: int
  font :: string
  textWidth :: real
  channel :: nat
  compOp :: compositeOp
  scanlineRange :: real
  scanlineBase :: real
  glitchThreshold :: real
  glitchAmplitude :: real
  alphaMin :: real
  amplitudeRange :: real
  amplitudeBase :: real
  amplitude :: real
  phaseStep :: real
  phase :: real
  scanlineShift :: real
  drawn :: nat

definition Math_random :: "host \<Rightarrow> glitcher \<Rightarrow> real \<times> glitcher" where
  "Math_random h g = (random h (drawn g), g\<lparr>drawn := Suc (drawn g)\<rparr>)"

definition make_font :: "host \<Rightarrow> glitcher \<Rightarrow> string" where
  "make_font h g =
     numberToString h (fontWeight g) @ '' '' @ numberToString h (of_int (textSize g)) @
     ''px '' @ fontFamily g"

subsection \<open>Construction and configuration\<close>

text \<open>
  \<^verbatim>\<open>initOptions\<close> sizes the text from the viewport, resets the animation state and then
  checks the six bounded options in the order of the source; each check either throws or
  stores the supplied value, and an omitted option gets its default.
\<close>

definition init_sizes :: "host \<Rightarrow> glitcher \<Rightarrow> glitcher" where
  "init_sizes h g0 =
     (let g = g0\<lparr>width := offsetWidth h\<rparr>;
          g = g\<lparr>height := offsetHeight h\<rparr>;
          g = g\<lparr>textSize := \<lfloor>of_int (width g) / (7 :: real)\<rfloor>\<rparr>;
          g = (if textSize g > height g
               then g\<lparr>textSize := \<lfloor>of_int (height g) / (1.5 :: real)\<rfloor>\<rparr> else g);
          g = g\<lparr>font := make_font h g\<rparr>;
          g = g\<lparr>this_context := (this_context g)\<lparr>ctx_font := font g\<rparr>\<rparr>;
          g = g\<lparr>textWidth := measureText h (ctx_font (this_context g)) (this_text g)\<rparr>
      in g\<lparr>channel := 0, compOp := Lighter, phase := 0.0, amplitude := 0.0,
            scanlineBase := 40, scanlineRange := 40, scanlineShift := 15\<rparr>)"

definition init_phaseStep :: "options \<Rightarrow> glitcher \<Rightarrow> error + glitcher" where
  "init_phaseStep options g =
     (case opt_phaseStep options of
        Some v \<Rightarrow>
          if v > 1 \<or> v < 0 then Inl (Error ''phaseStep must be in range [0,1]'')
          else Inr (g\<lparr>phaseStep := v\<rparr>)
      | None \<Rightarrow> Inr (g\<lparr>phaseStep := 0.05\<rparr>))"

definition init_amplitudeBase :: "options \<Rightarrow> glitcher \<Rightarrow> error + glitcher" where
  "init_amplitudeBase options g =
     (case opt_amplitudeBase options of
        Some v \<Rightarrow>
          if v > 5 \<or> v < 0 then Inl (Error ''amplitudeBase must be in range [0,5]'')
          else Inr (g\<lparr>amplitudeBase := v\<rparr>)
      | None \<Rightarrow> Inr (g\<lparr>amplitudeBase := 2.0\<rparr>))"

definition init_amplitudeRange :: "options \<Rightarrow> glitcher \<Rightarrow> error + glitcher" where
  "init_amplitudeRange options g =
     (case opt_amplitudeRange options of
        Some v \<Rightarrow>
          if v > 5 \<or> v < 0 then Inl (Error ''amplitudeRange must be in range [0,5]'')
          else Inr (g\<lparr>amplitudeRange := v\<rparr>)
      | None \<Rightarrow> Inr (g\<lparr>amplitudeRange := 2.0\<rparr>))"

definition init_alphaMin :: "options \<Rightarrow> glitcher \<Rightarrow> error + glitcher" where
  "init_alphaMin options g =
     (case opt_alphaMin options of
        Some v \<Rightarrow>
          if v > 1 \<or> v < 0 then Inl (Error ''alphaMin must be in range [0,1]'')
          else Inr (g\<lparr>alphaMin := v\<rparr>)
      | None \<Rightarrow> Inr (g\<lparr>alphaMin := 0.8\<rparr>))"

definition init_glitchAmplitude :: "options \<Rightarrow> glitcher \<Rightarrow> error + glitcher" where
  "init_glitchAmplitude options g =
     (case opt_glitchAmplitude options of
        Some v \<Rightarrow>
          if v > 100 \<or> v < 0 then Inl (Error ''glitchAmplitude must be in range [0,100]'')
          else Inr (g\<lparr>glitchAmplitude := v\<rparr>)
      | None \<Rightarrow> Inr (g\<lparr>glitchAmplitude := 20.0\<rparr>))"

definition init_glitchThreshold :: "options \<Rightarrow> glitcher \<Rightarrow> error + glitcher" where
  "init_glitchThreshold options g =
     (case opt_glitchThreshold options of
        Some v \<Rightarrow>
          if v > 1 \<or> v < 0 then Inl (Error ''glitchThreshold must be in range [0,1]'')
          else Inr (g\<lparr>glitchThreshold := v\<rparr>)
      | None \<Rightarrow> Inr (g\<lparr>glitchThreshold := 0.9\<rparr>))"

text \<open>A throw ends the function: what follows runs only on a normal result.\<close>

definition and_then :: "error + 'a \<Rightarrow> ('a \<Rightarrow> error + 'b) \<Rightarrow> error + 'b" where
  "and_then m f = (case m of Inl e \<Rightarrow> Inl e | Inr a \<Rightarrow> f a)"

definition initOptions :: "host \<Rightarrow> options \<Rightarrow> glitcher \<Rightarrow> error + glitcher" where
  "initOptions h options g0 =
     and_then (init_phaseStep options (init_sizes h g0)) (\<lambda>g.
     and_then (init_amplitudeBase options g) (\<lambda>g.
     and_then (init_amplitudeRange options g) (\<lambda>g.
     and_then (init_alphaMin options g) (\<lambda>g.
     and_then (init_glitchAmplitude options g) (\<lambda>g.
     init_glitchThreshold options g)))))"

subsection \<open>Resize\<close>

definition resize :: "host \<Rightarrow> glitcher \<Rightarrow> glitcher" where
  "resize h g0 =
     (let g = g0\<lparr>width := offsetWidth h\<rparr>;
          g = g\<lparr>height := offsetHeight h\<rparr>
      in case canvas g of
           None \<Rightarrow> g
         | Some cv \<Rightarrow>
             (let cv = cv\<lparr>cv_height := height g\<rparr>;
                  g = g\<lparr>canvas := Some cv, this_context := reset_context (this_context g)\<rparr>;
                  cv = cv\<lparr>cv_width := width g\<rparr>;
                  g = g\<lparr>canvas := Some cv, this_context := reset_context (this_context g)\<rparr>;
                  g = g\<lparr>textSize := \<lfloor>of_int (cv_width cv) / (14 :: real)\<rfloor>\<rparr>;
                  g = (if textSize g > height g
                       then g\<lparr>textSize := \<lfloor>of_int (cv_height cv) / (1.5 :: real)\<rfloor>\<rparr> else g);
                  g = g\<lparr>font := make_font h g\<rparr>;
                  g = g\<lparr>this_context := (this_context g)\<lparr>textAlign := ''center''\<rparr>\<rparr>;
                  g = g\<lparr>this_context := (this_context g)\<lparr>ctx_font := font g\<rparr>\<rparr>
              in g\<lparr>textWidth := measureText h (ctx_font (this_context g)) (this_text g)\<rparr>))"

text \<open>
  The constructor. \<open>new_object\<close> is the object as it stands before \<^verbatim>\<open>initOptions\<close> is
  called: the field initialisers of the class, the canvas the constructor creates (a new
  canvas is 300 by 150) with its 2D context, the text and the two font options. Then come
  \<^verbatim>\<open>initOptions\<close> and \<^verbatim>\<open>resize\<close>; the last call, \<^verbatim>\<open>tick()\<close>, only schedules the first frame.
\<close>

definition new_object :: "options \<Rightarrow> glitcher" where
  "new_object options =
     (let g = \<lparr>this_text = opt_text options, fontFamily = ''Arial'', fontWeight = 500,
               textSize = 0, canvas = Some \<lparr>cv_width = 300, cv_height = 150\<rparr>,
               this_context = default_context, width = 0, height = 0, font = [],
               textWidth = 0, channel = 0, compOp = Lighter, scanlineRange = 0,
               scanlineBase = 0, glitchThreshold = 0, glitchAmplitude = 0, alphaMin = 0,
               amplitudeRange = 0, amplitudeBase = 0, amplitude = 0, phaseStep = 0,
               phase = 0, scanlineShift = 0, drawn = 0\<rparr>;
          g = (case opt_fontWeight options of Some w \<Rightarrow> g\<lparr>fontWeight := w\<rparr> | None \<Rightarrow> g);
          g = (case opt_fontFamily options of Some f \<Rightarrow> g\<lparr>fontFamily := f\<rparr> | None \<Rightarrow> g)
      in g)"

definition Glitcher :: "host \<Rightarrow> string \<Rightarrow> options \<Rightarrow> error + glitcher" where
  "Glitcher h querySelector options =
     and_then (initOptions h options (new_object options)) (\<lambda>g. Inr (resize h g))"

subsection \<open>Rendering one frame\<close>

definition base_offset :: "glitcher \<Rightarrow> int" where
  "base_offset g = shr (amplitude g * sin (pi * 2 * phase g)) 0"

definition glitch_offset :: "glitcher \<Rightarrow> real \<Rightarrow> real" where
  "glitch_offset g r =
     (let x0 = of_int (base_offset g)
      in if r \<ge> glitchThreshold g then x0 * glitchAmplitude g else x0)"

definition renderChannels :: "real \<Rightarrow> real \<Rightarrow> real \<Rightarrow> glitcher \<Rightarrow> glitcher" where
  "renderChannels x1 x2 x3 g =
     (let c = this_context g;
          c = c\<lparr>ctx_font := font g\<rparr>;
          c = c\<lparr>fillStyle := ''rgb(255,0,0)''\<rparr>;
          c = fillText (this_text g) x1 (of_int (height g) / 2) c;
          c = c\<lparr>globalCompositeOperation := compOp g\<rparr>;
          c = c\<lparr>fillStyle := ''rgb(0,255,0)''\<rparr>;
          c = fillText (this_text g) x2 (of_int (height g) / 2) c;
          c = c\<lparr>fillStyle := ''rgb(0,0,255)''\<rparr>;
          c = fillText (this_text g) x3 (of_int (height g) / 2) c
      in g\<lparr>this_context := c\<rparr>)"

text \<open>
  The pixel buffer of an image is a clamped byte array: a store outside \<open>0..255\<close> keeps
  the nearest bound. \<open>brighten i s d\<close> is the loop \<^verbatim>\<open>while (i-- > 0) d[i] += s\<close>.
\<close>

definition clamp8 :: "int \<Rightarrow> nat" where
  "clamp8 v = nat (max 0 (min 255 v))"

fun brighten :: "nat \<Rightarrow> int \<Rightarrow> nat list \<Rightarrow> nat list" where
  "brighten 0 s d = d"
| "brighten (Suc i) s d = brighten i s (d[i := clamp8 (int (d ! i) + s)])"

text \<open>
  The three samples of a scanline for a random value \<open>r\<close>: the row, the brightness offset
  and the displacement, each operation rounded as the doubles round.
\<close>

definition scanline_y :: "glitcher \<Rightarrow> real \<Rightarrow> int" where
  "scanline_y g r = shr (fl (of_int (height g) * r)) 0"

definition scanline_s :: "glitcher \<Rightarrow> real \<Rightarrow> int" where
  "scanline_s g r = shr (fl (scanlineBase g + fl (scanlineRange g * r))) 0"

definition scanline_x :: "glitcher \<Rightarrow> real \<Rightarrow> int" where
  "scanline_x g r = shr (fl (- scanlineShift g + fl (fl (scanlineShift g * 2) * r))) 0"

definition renderScanline :: "host \<Rightarrow> glitcher \<Rightarrow> glitcher" where
  "renderScanline h g0 =
     (let (r, g) = Math_random h g0;
          y = scanline_y g r;
          d = getImageData h 0 y (width g) 1;
          i = length d;
          (r, g) = Math_random h g;
          s = scanline_s g r;
          (r, g) = Math_random h g;
          x = scanline_x g r;
          d = brighten i s d
      in g\<lparr>this_context := putImageData d x y (this_context g)\<rparr>)"

definition render :: "host \<Rightarrow> glitcher \<Rightarrow> glitcher" where
  "render h g0 =
     (let (r, g) = Math_random h g0;
          x0 = glitch_offset g0 r;
          x1 = of_int (shr (of_int (width g)) 1);
          x2 = x1 + x0;
          x3 = x1 - x0;
          g = g\<lparr>this_context :=
                 clearRect 0 0 (of_int (width g)) (of_int (height g)) (this_context g)\<rparr>;
          (r, g) = Math_random h g;
          g = g\<lparr>this_context :=
                 (this_context g)\<lparr>globalAlpha := alphaMin g + (1 - alphaMin g) * r\<rparr>\<rparr>;
          g = (if channel g = 0 then renderChannels x1 x2 x3 g
               else if channel g = 1 then renderChannels x2 x3 x1 g
               else if channel g = 2 then renderChannels x3 x1 x2 g
               else g);
          g = renderScanline h g;
          (r, g) = Math_random h g
      in if \<lfloor>r * 2\<rfloor> > 1 then renderScanline h g else g)"

subsection \<open>The animation loop\<close>

text \<open>
  \<open>tick h g\<close> is one frame: the body of the callback that \<^verbatim>\<open>tick()\<close> hands to
  \<^verbatim>\<open>requestAnimationFrame\<close>. \<open>advance\<close> is its state update, the statements before the
  call of \<^verbatim>\<open>render()\<close>. The callback ends by scheduling the next frame; \<open>ticks h k g\<close> is
  the state after \<open>k\<close> frames.
\<close>

definition advance :: "host \<Rightarrow> glitcher \<Rightarrow> glitcher" where
  "advance h g0 =
     (let g = g0\<lparr>phase := phase g0 + phaseStep g0\<rparr>
      in if phase g > 1
         then (let g = g\<lparr>phase := 0.0\<rparr>;
                   g = g\<lparr>channel := (if channel g = 2 then 0 else channel g + 1)\<rparr>;
                   (r, g) = Math_random h g
               in g\<lparr>amplitude := amplitudeBase g + amplitudeRange g * r\<rparr>)
         else g)"

definition tick :: "host \<Rightarrow> glitcher \<Rightarrow> glitcher" where
  "tick h g0 = render h (advance h g0)"

primrec ticks :: "host \<Rightarrow> nat \<Rightarrow> glitcher \<Rightarrow> glitcher" where
  "ticks h 0 g = g"
| "ticks h (Suc k) g = tick h (ticks h k g)"

section \<open>Notions the properties are stated with\<close>

text \<open>A wrap event: the phase exceeds 1 after the increment of the coming frame.\<close>

definition wraps :: "glitcher \<Rightarrow> bool" where
  "wraps g = (phase g + phaseStep g > 1)"

text \<open>\<^verbatim>\<open>Math.random()\<close> returns values in \<open>[0,1)\<close>.\<close>

definition random_ok :: "host \<Rightarrow> bool" where
  "random_ok h = (\<forall>n. 0 \<le> random h n \<and> random h n < 1)"

text \<open>
  The states a Glitcher can be in: what the constructor returns, and from there any
  number of frames and of calls of \<^verbatim>\<open>resize()\<close>, in any order and under any viewport.
\<close>

inductive reachable :: "glitcher \<Rightarrow> bool" where
  constructed: "Glitcher h querySelector options = Inr g \<Longrightarrow> reachable g"
| frame: "reachable g \<Longrightarrow> random_ok h \<Longrightarrow> reachable (tick h g)"
| resized: "reachable g \<Longrightarrow> reachable (resize h g)"

text \<open>What holds of every reachable state.\<close>

definition well_formed :: "glitcher \<Rightarrow> bool" where
  "well_formed g =
     (channel g < 3 \<and> compOp g = Lighter \<and> canvas g \<noteq> None \<and>
      0 \<le> phaseStep g \<and> phaseStep g \<le> 1 \<and>
      0 \<le> amplitudeBase g \<and> amplitudeBase g \<le> 5 \<and>
      0 \<le> amplitudeRange g \<and> amplitudeRange g \<le> 5 \<and>
      0 \<le> alphaMin g \<and> alphaMin g \<le> 1 \<and>
      0 \<le> glitchAmplitude g \<and> glitchAmplitude g \<le> 100 \<and>
      0 \<le> glitchThreshold g \<and> glitchThreshold g \<le> 1 \<and>
      scanlineBase g = 40 \<and> scanlineRange g = 40 \<and> scanlineShift g = 15 \<and>
      0 \<le> amplitude g \<and> amplitude g \<le> amplitudeBase g + amplitudeRange g \<and>
      0 \<le> phase g \<and> phase g \<le> 1)"

text \<open>\<open>paints_only g g'\<close>: from \<open>g\<close> to \<open>g'\<close> nothing changed but the drawing context and
  the number of random values taken.\<close>

definition paints_only :: "glitcher \<Rightarrow> glitcher \<Rightarrow> bool" where
  "paints_only g g' = (g' = g\<lparr>this_context := this_context g', drawn := drawn g'\<rparr>)"

text \<open>The drawing calls made between two states, and what they painted.\<close>

definition frame_calls :: "glitcher \<Rightarrow> glitcher \<Rightarrow> draw_call list" where
  "frame_calls g g' = drop (length (calls (this_context g))) (calls (this_context g'))"

fun text_passes :: "draw_call list \<Rightarrow> (string \<times> real \<times> compositeOp) list" where
  "text_passes [] = []"
| "text_passes (FillText t x y style mode a # cs) = (style, x, mode) # text_passes cs"
| "text_passes (c # cs) = text_passes cs"

fun scanlines :: "draw_call list \<Rightarrow> nat" where
  "scanlines [] = 0"
| "scanlines (PutImageData d x y # cs) = Suc (scanlines cs)"
| "scanlines (c # cs) = scanlines cs"

text \<open>The call with which \<^verbatim>\<open>renderScanline\<close> writes a row back, when it starts with the
  \<open>n\<close>-th random value: the row \<open>y\<close>, its bytes brightened by \<open>s\<close>, displaced by \<open>x\<close>.\<close>

definition scanline_call :: "host \<Rightarrow> glitcher \<Rightarrow> nat \<Rightarrow> draw_call" where
  "scanline_call h g n =
     PutImageData
       (let d = getImageData h 0 (scanline_y g (random h n)) (width g) 1
        in brighten (length d) (scanline_s g (random h (n + 1))) d)
       (scanline_x g (random h (n + 2)))
       (scanline_y g (random h n))"

text \<open>The three text passes of a frame as (fill style, x, compositing mode), for a
  channel, a centre, an offset and the mode the red pass is painted under.\<close>

definition passes :: "nat \<Rightarrow> real \<Rightarrow> real \<Rightarrow> compositeOp \<Rightarrow> (string \<times> real \<times> compositeOp) list" where
  "passes ch center x0 red_mode =
     (if ch = 0 then
        [(''rgb(255,0,0)'', center, red_mode), (''rgb(0,255,0)'', center + x0, Lighter),
         (''rgb(0,0,255)'', center - x0, Lighter)]
      else if ch = 1 then
        [(''rgb(255,0,0)'', center + x0, red_mode), (''rgb(0,255,0)'', center - x0, Lighter),
         (''rgb(0,0,255)'', center, Lighter)]
      else
        [(''rgb(255,0,0)'', center - x0, red_mode), (''rgb(0,255,0)'', center, Lighter),
         (''rgb(0,0,255)'', center + x0, Lighter)])"




subsection \<open>The documented configuration\<close>

text \<open>
  The six bounded options in the order in which the source checks them, each with its
  documented range and default, and the message the specification asks for: the name
  of the field and its valid range.
\<close>

datatype bounded_option =
  PhaseStep | AmplitudeBase | AmplitudeRange | AlphaMin | GlitchAmplitude | GlitchThreshold

definition bounded_options :: "bounded_option list" where
  "bounded_options =
     [PhaseStep, AmplitudeBase, AmplitudeRange, AlphaMin, GlitchAmplitude, GlitchThreshold]"

fun supplied :: "options \<Rightarrow> bounded_option \<Rightarrow> real option" where
  "supplied options PhaseStep = opt_phaseStep options"
| "supplied options AmplitudeBase = opt_amplitudeBase options"
| "supplied options AmplitudeRange = opt_amplitudeRange options"
| "supplied options AlphaMin = opt_alphaMin options"
| "supplied options GlitchAmplitude = opt_glitchAmplitude options"
| "supplied options GlitchThreshold = opt_glitchThreshold options"

fun effective :: "glitcher \<Rightarrow> bounded_option \<Rightarrow> real" where
  "effective g PhaseStep = phaseStep g"
| "effective g AmplitudeBase = amplitudeBase g"
| "effective g AmplitudeRange = amplitudeRange g"
| "effective g AlphaMin = alphaMin g"
| "effective g GlitchAmplitude = glitchAmplitude g"
| "effective g GlitchThreshold = glitchThreshold g"

fun lower_bound :: "bounded_option \<Rightarrow> real" where
  "lower_bound f = 0"

fun upper_bound :: "bounded_option \<Rightarrow> real" where
  "upper_bound PhaseStep = 1"
| "upper_bound AmplitudeBase = 5"
| "upper_bound AmplitudeRange = 5"
| "upper_bound AlphaMin = 1"
| "upper_bound GlitchAmplitude = 100"
| "upper_bound GlitchThreshold = 1"

fun documented_default :: "bounded_option \<Rightarrow> real" where
  "documented_default PhaseStep = 0.05"
| "documented_default AmplitudeBase = 2.0"
| "documented_default AmplitudeRange = 2.0"
| "documented_default AlphaMin = 0.8"
| "documented_default GlitchAmplitude = 20.0"
| "documented_default GlitchThreshold = 0.9"

fun option_name :: "bounded_option \<Rightarrow> string" where
  "option_name PhaseStep = ''phaseStep''"
| "option_name AmplitudeBase = ''amplitudeBase''"
| "option_name AmplitudeRange = ''amplitudeRange''"
| "option_name AlphaMin = ''alphaMin''"
| "option_name GlitchAmplitude = ''glitchAmplitude''"
| "option_name GlitchThreshold = ''glitchThreshold''"

fun range_text :: "bounded_option \<Rightarrow> string" where
  "range_text PhaseStep = ''[0,1]''"
| "range_text AmplitudeBase = ''[0,5]''"
| "range_text AmplitudeRange = ''[0,5]''"
| "range_text AlphaMin = ''[0,1]''"
| "range_text GlitchAmplitude = ''[0,100]''"
| "range_text GlitchThreshold = ''[0,1]''"

definition ConfigurationError :: "bounded_option \<Rightarrow> error" where
  "ConfigurationError f = Error (option_name f @ '' must be in range '' @ range_text f)"

definition out_of_range :: "options \<Rightarrow> bounded_option \<Rightarrow> bool" where
  "out_of_range options f =
     (case supplied options f of
        None \<Rightarrow> False
      | Some v \<Rightarrow> v < lower_bound f \<or> upper_bound f < v)"

text \<open>The value construction is to use for a bounded option: the supplied one, or the
  documented default when the option is omitted.\<close>

definition chosen :: "options \<Rightarrow> bounded_option \<Rightarrow> real" where
  "chosen options f =
     (case supplied options f of None \<Rightarrow> documented_default f | Some v \<Rightarrow> v)"

subsection \<open>An example host\<close>

text \<open>
  A viewport of 1400 by 700, text ten units wide per character, a surface that reads
  back as transparent black, and a random source that always returns one half.
\<close>

definition example_host :: host where
  "example_host =
     \<lparr>offsetWidth = 1400, offsetHeight = 700,
      measureText = (\<lambda>f t. 10 * of_nat (length t)),
      getImageData = (\<lambda>sx sy sw sh. replicate (nat (4 * sw * sh)) 0),
      numberToString = (\<lambda>x. if x = 500 then ''500'' else if x = 100 then ''100'' else ''0''),
      random = (\<lambda>n. 1 / 2)\<rparr>"

definition no_options :: "string \<Rightarrow> options" where
  "no_options t =
     \<lparr>opt_text = t, opt_fontFamily = None, opt_fontWeight = None, opt_phaseStep = None,
      opt_alphaMin = None, opt_amplitudeBase = None, opt_amplitudeRange = None,
      opt_glitchAmplitude = None, opt_glitchThreshold = None\<rparr>"


definition example_glitcher :: "options \<Rightarrow> glitcher" where
  "example_glitcher options = projr (Glitcher example_host ''#glitch'' options)"

text \<open>The object as the constructor hands it to its call of \<^verbatim>\<open>resize()\<close>, for the example
  host and no options.\<close>

definition before_first_resize :: glitcher where
  "before_first_resize =
     projr (initOptions example_host (no_options ''HI'') (new_object (no_options ''HI'')))"

section \<open>What a frame leaves alone\<close>

lemma paints_only_refl: "paints_only g g"
  by (simp add: paints_only_def)

lemma paints_only_context: "paints_only g g' \<Longrightarrow> paints_only g (g'\<lparr>this_context := c\<rparr>)"
  unfolding paints_only_def by (cases g; cases g') simp

lemma paints_only_random: "paints_only g g' \<Longrightarrow> paints_only g (snd (Math_random h g'))"
  unfolding paints_only_def Math_random_def by (cases g; cases g') simp

lemma paints_only_if:
  "paints_only g a \<Longrightarrow> paints_only g b \<Longrightarrow> paints_only g (if c then a else b)"
  by simp

lemma paints_only_renderChannels:
  "paints_only g g' \<Longrightarrow> paints_only g (renderChannels a b c g')"
  unfolding renderChannels_def Let_def by (rule paints_only_context)

lemma paints_only_renderScanline:
  "paints_only g g' \<Longrightarrow> paints_only g (renderScanline h g')"
  unfolding renderScanline_def Let_def split_def
  by (intro paints_only_context paints_only_random)

lemma paints_only_render: "paints_only g (render h g)"
  unfolding render_def Let_def split_def
  by (intro paints_only_if paints_only_renderScanline paints_only_renderChannels
      paints_only_context paints_only_random paints_only_refl)

lemma paints_only_fields:
  assumes "paints_only g g'"
  shows "this_text g' = this_text g" and "fontFamily g' = fontFamily g"
    and "fontWeight g' = fontWeight g" and "textSize g' = textSize g"
    and "canvas g' = canvas g" and "width g' = width g" and "height g' = height g"
    and "font g' = font g" and "textWidth g' = textWidth g" and "channel g' = channel g"
    and "compOp g' = compOp g" and "scanlineRange g' = scanlineRange g"
    and "scanlineBase g' = scanlineBase g" and "glitchThreshold g' = glitchThreshold g"
    and "glitchAmplitude g' = glitchAmplitude g" and "alphaMin g' = alphaMin g"
    and "amplitudeRange g' = amplitudeRange g" and "amplitudeBase g' = amplitudeBase g"
    and "amplitude g' = amplitude g" and "phaseStep g' = phaseStep g"
    and "phase g' = phase g" and "scanlineShift g' = scanlineShift g"
  using assms unfolding paints_only_def by (cases g; cases g'; simp)+

lemmas render_fields [simp] = paints_only_fields [OF paints_only_render]

lemma advance_unchanged [simp]:
  "this_context (advance h g) = this_context g" "width (advance h g) = width g"
  "height (advance h g) = height g" "this_text (advance h g) = this_text g"
  "compOp (advance h g) = compOp g" "alphaMin (advance h g) = alphaMin g"
  "glitchThreshold (advance h g) = glitchThreshold g"
  "glitchAmplitude (advance h g) = glitchAmplitude g"
  "scanlineBase (advance h g) = scanlineBase g" "scanlineRange (advance h g) = scanlineRange g"
  "scanlineShift (advance h g) = scanlineShift g"
  by (simp_all add: advance_def Let_def Math_random_def)

text \<open>The state after a frame.\<close>

lemma tick_phase: "phase (tick h g) = (if wraps g then 0 else phase g + phaseStep g)"
  by (simp add: tick_def advance_def wraps_def Let_def Math_random_def)

lemma tick_channel:
  "channel (tick h g) =
     (if wraps g then (if channel g = 2 then 0 else channel g + 1) else channel g)"
  by (simp add: tick_def advance_def wraps_def Let_def Math_random_def)

lemma tick_amplitude:
  "amplitude (tick h g) =
     (if wraps g then amplitudeBase g + amplitudeRange g * random h (drawn g)
      else amplitude g)"
  by (simp add: tick_def advance_def wraps_def Let_def Math_random_def)

lemma tick_config [simp]:
  "phaseStep (tick h g) = phaseStep g" "amplitudeBase (tick h g) = amplitudeBase g"
  "amplitudeRange (tick h g) = amplitudeRange g" "alphaMin (tick h g) = alphaMin g"
  "glitchAmplitude (tick h g) = glitchAmplitude g"
  "glitchThreshold (tick h g) = glitchThreshold g"
  "scanlineBase (tick h g) = scanlineBase g" "scanlineRange (tick h g) = scanlineRange g"
  "scanlineShift (tick h g) = scanlineShift g" "compOp (tick h g) = compOp g"
  "canvas (tick h g) = canvas g" "this_text (tick h g) = this_text g"
  "fontFamily (tick h g) = fontFamily g" "fontWeight (tick h g) = fontWeight g"
  "width (tick h g) = width g" "height (tick h g) = height g"
  by (simp_all add: tick_def advance_def Let_def Math_random_def)

lemma ticks_phaseStep [simp]: "phaseStep (ticks h k g) = phaseStep g"
  by (induction k) simp_all

section \<open>Construction\<close>

lemma init_phaseStep_eq:
  "init_phaseStep options g =
     (if out_of_range options PhaseStep then Inl (ConfigurationError PhaseStep)
      else Inr (g\<lparr>phaseStep := chosen options PhaseStep\<rparr>))"
  by (auto simp: init_phaseStep_def out_of_range_def ConfigurationError_def chosen_def
      split: option.splits)

lemma init_amplitudeBase_eq:
  "init_amplitudeBase options g =
     (if out_of_range options AmplitudeBase then Inl (ConfigurationError AmplitudeBase)
      else Inr (g\<lparr>amplitudeBase := chosen options AmplitudeBase\<rparr>))"
  by (auto simp: init_amplitudeBase_def out_of_range_def ConfigurationError_def chosen_def
      split: option.splits)

lemma init_amplitudeRange_eq:
  "init_amplitudeRange options g =
     (if out_of_range options AmplitudeRange then Inl (ConfigurationError AmplitudeRange)
      else Inr (g\<lparr>amplitudeRange := chosen options AmplitudeRange\<rparr>))"
  by (auto simp: init_amplitudeRange_def out_of_range_def ConfigurationError_def chosen_def
      split: option.splits)

lemma init_alphaMin_eq:
  "init_alphaMin options g =
     (if out_of_range options AlphaMin then Inl (ConfigurationError AlphaMin)
      else Inr (g\<lparr>alphaMin := chosen options AlphaMin\<rparr>))"
  by (auto simp: init_alphaMin_def out_of_range_def ConfigurationError_def chosen_def
      split: option.splits)

lemma init_glitchAmplitude_eq:
  "init_glitchAmplitude options g =
     (if out_of_range options GlitchAmplitude then Inl (ConfigurationError GlitchAmplitude)
      else Inr (g\<lparr>glitchAmplitude := chosen options GlitchAmplitude\<rparr>))"
  by (auto simp: init_glitchAmplitude_def out_of_range_def ConfigurationError_def chosen_def
      split: option.splits)

lemma init_glitchThreshold_eq:
  "init_glitchThreshold options g =
     (if out_of_range options GlitchThreshold then Inl (ConfigurationError GlitchThreshold)
      else Inr (g\<lparr>glitchThreshold := chosen options GlitchThreshold\<rparr>))"
  by (auto simp: init_glitchThreshold_def out_of_range_def ConfigurationError_def chosen_def
      split: option.splits)

lemmas init_stage_eqs = init_phaseStep_eq init_amplitudeBase_eq init_amplitudeRange_eq
  init_alphaMin_eq init_glitchAmplitude_eq init_glitchThreshold_eq

lemma initOptions_eq:
  "initOptions h options g0 =
     (case find (out_of_range options) bounded_options of
        Some f \<Rightarrow> Inl (ConfigurationError f)
      | None \<Rightarrow>
          Inr ((init_sizes h g0)
            \<lparr>phaseStep := chosen options PhaseStep,
             amplitudeBase := chosen options AmplitudeBase,
             amplitudeRange := chosen options AmplitudeRange,
             alphaMin := chosen options AlphaMin,
             glitchAmplitude := chosen options GlitchAmplitude,
             glitchThreshold := chosen options GlitchThreshold\<rparr>))"
  by (simp add: initOptions_def and_then_def init_stage_eqs bounded_options_def)

lemma resize_frame:
  "resize h g =
     g\<lparr>width := offsetWidth h, height := offsetHeight h, canvas := canvas (resize h g),
       textSize := textSize (resize h g), font := font (resize h g),
       textWidth := textWidth (resize h g), this_context := this_context (resize h g)\<rparr>"
  by (cases g) (simp add: resize_def Let_def split: option.splits)

lemma resize_fields [simp]:
  "this_text (resize h g) = this_text g" "fontFamily (resize h g) = fontFamily g"
  "fontWeight (resize h g) = fontWeight g" "channel (resize h g) = channel g"
  "compOp (resize h g) = compOp g" "scanlineRange (resize h g) = scanlineRange g"
  "scanlineBase (resize h g) = scanlineBase g" "glitchThreshold (resize h g) = glitchThreshold g"
  "glitchAmplitude (resize h g) = glitchAmplitude g" "alphaMin (resize h g) = alphaMin g"
  "amplitudeRange (resize h g) = amplitudeRange g" "amplitudeBase (resize h g) = amplitudeBase g"
  "amplitude (resize h g) = amplitude g" "phaseStep (resize h g) = phaseStep g"
  "phase (resize h g) = phase g" "scanlineShift (resize h g) = scanlineShift g"
  "drawn (resize h g) = drawn g"
  by (subst resize_frame, simp)+

lemma resize_canvas: "canvas g \<noteq> None \<Longrightarrow> canvas (resize h g) \<noteq> None"
  by (auto simp: resize_def Let_def split: option.splits)

lemma resize_mode:
  "canvas g \<noteq> None \<Longrightarrow> globalCompositeOperation (this_context (resize h g)) = SourceOver"
  by (auto simp: resize_def Let_def reset_context_def default_context_def split: option.splits)

lemma Glitcher_fails:
  "find (out_of_range options) bounded_options = Some f \<Longrightarrow>
     Glitcher h querySelector options = Inl (ConfigurationError f)"
  by (simp add: Glitcher_def initOptions_eq and_then_def)

lemma Glitcher_succeeds:
  "find (out_of_range options) bounded_options = None \<Longrightarrow>
     \<exists>g. Glitcher h querySelector options = Inr g"
  by (simp add: Glitcher_def initOptions_eq and_then_def)

lemma Glitcher_cases:
  "Glitcher h querySelector options = Inr g \<Longrightarrow>
     find (out_of_range options) bounded_options = None"
  by (auto simp: Glitcher_def initOptions_eq and_then_def split: option.splits)

lemma init_sizes_fields [simp]:
  "this_text (init_sizes h g) = this_text g" "fontFamily (init_sizes h g) = fontFamily g"
  "fontWeight (init_sizes h g) = fontWeight g" "channel (init_sizes h g) = 0"
  "compOp (init_sizes h g) = Lighter" "scanlineRange (init_sizes h g) = 40"
  "scanlineBase (init_sizes h g) = 40" "scanlineShift (init_sizes h g) = 15"
  "amplitude (init_sizes h g) = 0" "phase (init_sizes h g) = 0"
  "drawn (init_sizes h g) = drawn g" "canvas (init_sizes h g) = canvas g"
  by (simp_all add: init_sizes_def Let_def)

lemma new_object_fields [simp]:
  "this_text (new_object options) = opt_text options"
  "fontFamily (new_object options) =
     (case opt_fontFamily options of None \<Rightarrow> ''Arial'' | Some v \<Rightarrow> v)"
  "fontWeight (new_object options) = (case opt_fontWeight options of None \<Rightarrow> 500 | Some v \<Rightarrow> v)"
  "drawn (new_object options) = 0"
  "canvas (new_object options) = Some \<lparr>cv_width = 300, cv_height = 150\<rparr>"
  by (simp_all add: new_object_def Let_def split: option.splits)

lemma Glitcher_fields:
  assumes "Glitcher h querySelector options = Inr g"
  shows "phase g = 0" and "channel g = 0" and "amplitude g = 0" and "drawn g = 0"
    and "effective g f = chosen options f" and "\<not> out_of_range options f"
    and "scanlineBase g = 40" and "scanlineRange g = 40" and "scanlineShift g = 15"
    and "compOp g = Lighter" and "canvas g \<noteq> None"
    and "this_text g = opt_text options"
    and "fontFamily g = (case opt_fontFamily options of None \<Rightarrow> ''Arial'' | Some v \<Rightarrow> v)"
    and "fontWeight g = (case opt_fontWeight options of None \<Rightarrow> 500 | Some v \<Rightarrow> v)"
    and "globalCompositeOperation (this_context g) = SourceOver"
proof -
  have none: "find (out_of_range options) bounded_options = None"
    using assms by (rule Glitcher_cases)
  then show "\<not> out_of_range options f"
    by (cases f) (auto simp: bounded_options_def split: if_splits)
  obtain g1 where g: "g = resize h g1"
    and g1: "initOptions h options (new_object options) = Inr g1"
    using assms by (auto simp: Glitcher_def and_then_def split: sum.splits)
  note g1' = g1 [unfolded initOptions_eq none, simplified]
  show "phase g = 0" "channel g = 0" "amplitude g = 0" "drawn g = 0"
    "scanlineBase g = 40" "scanlineRange g = 40" "scanlineShift g = 15"
    "compOp g = Lighter" "this_text g = opt_text options"
    "fontFamily g = (case opt_fontFamily options of None \<Rightarrow> ''Arial'' | Some v \<Rightarrow> v)"
    "fontWeight g = (case opt_fontWeight options of None \<Rightarrow> 500 | Some v \<Rightarrow> v)"
    unfolding g using g1' by auto
  show "effective g f = chosen options f"
    unfolding g using g1' by (cases f) auto
  have c1: "canvas g1 \<noteq> None" using g1' by auto
  then show "canvas g \<noteq> None" unfolding g by (rule resize_canvas)
  show "globalCompositeOperation (this_context g) = SourceOver"
    unfolding g using c1 by (rule resize_mode)
qed

section \<open>Reachable states\<close>

lemma Glitcher_well_formed:
  assumes "Glitcher h querySelector options = Inr g"
  shows "well_formed g"
proof -
  note f = Glitcher_fields [OF assms]
  have "lower_bound x \<le> effective g x \<and> effective g x \<le> upper_bound x" for x
    using f(5) [of x] f(6) [of x]
    by (cases x) (auto simp: chosen_def out_of_range_def split: option.splits)
  from this [of PhaseStep] this [of AmplitudeBase] this [of AmplitudeRange]
    this [of AlphaMin] this [of GlitchAmplitude] this [of GlitchThreshold]
  show ?thesis
    unfolding well_formed_def using f(1-4,7-11) by simp
qed

lemma tick_well_formed:
  assumes "well_formed g" and "random_ok h"
  shows "well_formed (tick h g)"
proof -
  have r: "0 \<le> random h (drawn g)" "random h (drawn g) < 1"
    using assms(2) by (simp_all add: random_ok_def)
  have "0 \<le> amplitudeRange g * random h (drawn g)"
    using assms(1) r by (simp add: well_formed_def)
  moreover have "amplitudeRange g * random h (drawn g) \<le> amplitudeRange g"
    using assms(1) r by (simp add: well_formed_def mult_left_le)
  ultimately show ?thesis
    using assms(1)
    by (auto simp: well_formed_def tick_phase tick_channel tick_amplitude wraps_def)
qed

lemma resize_well_formed: "well_formed g \<Longrightarrow> well_formed (resize h g)"
  by (simp add: well_formed_def resize_canvas)

lemma reachable_well_formed: "reachable g \<Longrightarrow> well_formed g"
  by (induction rule: reachable.induct)
    (simp_all add: Glitcher_well_formed tick_well_formed resize_well_formed)

lemma example_constructed:
  "find (out_of_range options) bounded_options = None \<Longrightarrow>
     Glitcher example_host ''#glitch'' options = Inr (example_glitcher options)"
  using Glitcher_succeeds [of options example_host "''#glitch''"]
  by (auto simp: example_glitcher_def)

lemma example_reachable:
  "find (out_of_range options) bounded_options = None \<Longrightarrow> reachable (example_glitcher options)"
  by (rule reachable.constructed, erule example_constructed)

lemma example_random_ok: "random_ok example_host"
  by (simp add: random_ok_def example_host_def)

lemma no_options_find:
  "find (out_of_range (no_options t)) bounded_options = None"
  by (simp add: bounded_options_def out_of_range_def no_options_def)

section \<open>The animation state\<close>

lemma ticks_no_wrap_phase:
  "(\<forall>j<k. \<not> wraps (ticks h j g)) \<Longrightarrow> phase (ticks h k g) = phase g + of_nat k * phaseStep g"
  by (induction k) (simp_all add: tick_phase algebra_simps)

text \<open>
  Claim C1 (phase progression). Starting from \<open>phase = 0\<close> with \<open>phaseStep = p\<close>, after
  \<open>k\<close> frames none of which was a wrap event the phase is \<open>k * p\<close>; on a frame where the
  phase exceeds 1 after the increment it is reset to exactly 0, and on any other frame
  it advances by \<open>phaseStep\<close>. Numbers are reals here, so the equation is exact.
\<close>

theorem phase_progression:
  "(phase g = 0 \<and> phaseStep g = p \<and> (\<forall>j<k. \<not> wraps (ticks h j g))
      \<longrightarrow> phase (ticks h k g) = of_nat k * p)
   \<and> (phase g + phaseStep g > 1 \<longrightarrow> wraps g \<and> phase (tick h g) = 0)
   \<and> (\<not> wraps g \<longrightarrow> phase (tick h g) = phase g + phaseStep g)"
proof (intro conjI impI)
  assume "phase g = 0 \<and> phaseStep g = p \<and> (\<forall>j<k. \<not> wraps (ticks h j g))"
  then show "phase (ticks h k g) = of_nat k * p"
    using ticks_no_wrap_phase [of k h g] by simp
qed (simp_all add: tick_phase wraps_def)

theorem phase_progression_witness:
  "phase (ticks example_host 3
      (example_glitcher ((no_options ''HI'')\<lparr>opt_phaseStep := Some (1/4)\<rparr>))) = 3 * (1 / 4)
   \<and> phase (tick example_host (ticks example_host 4
      (example_glitcher ((no_options ''HI'')\<lparr>opt_phaseStep := Some (1/4)\<rparr>)))) = 0"
proof -
  define o1 where "o1 = (no_options ''HI'')\<lparr>opt_phaseStep := Some (1/4)\<rparr>"
  define g where "g = example_glitcher o1"
  define h where "h = example_host"
  define g1 where "g1 = tick h g"
  define g2 where "g2 = tick h g1"
  define g3 where "g3 = tick h g2"
  define g4 where "g4 = tick h g3"
  have ok: "find (out_of_range o1) bounded_options = None"
    by (simp add: o1_def bounded_options_def out_of_range_def no_options_def)
  note f = Glitcher_fields [OF example_constructed [OF ok], folded g_def]
  have ps: "phaseStep g = 1 / 4"
    using f(5) [of PhaseStep] by (simp add: chosen_def o1_def no_options_def)
  have p0: "phase g = 0" "\<not> wraps g"
    using f(1) ps by (simp_all add: wraps_def)
  have ps1: "phaseStep g1 = 1 / 4" and ps2: "phaseStep g2 = 1 / 4"
    and ps3: "phaseStep g3 = 1 / 4" and ps4: "phaseStep g4 = 1 / 4"
    by (simp_all add: g1_def g2_def g3_def g4_def ps)
  have p1: "phase g1 = 1 / 4" "\<not> wraps g1"
    unfolding g1_def using p0 ps by (simp_all add: tick_phase wraps_def)
  have p2: "phase g2 = 1 / 2" "\<not> wraps g2"
    unfolding g2_def using p1 ps1 by (simp_all add: tick_phase wraps_def)
  have p3: "phase g3 = 3 / 4" "\<not> wraps g3"
    unfolding g3_def using p2 ps2 by (simp_all add: tick_phase wraps_def)
  have p4: "wraps g4"
    unfolding g4_def using p3 ps3 by (simp_all add: tick_phase wraps_def)
  have t3: "ticks h 3 g = g3" and t4: "ticks h 4 g = g4"
    by (simp_all add: numeral_eq_Suc g1_def g2_def g3_def g4_def)
  have nw: "\<forall>j<3. \<not> wraps (ticks h j g)"
  proof (intro allI impI)
    fix j :: nat assume "j < 3"
    then have "j = 0 \<or> j = Suc 0 \<or> j = Suc (Suc 0)" by arith
    then show "\<not> wraps (ticks h j g)"
      using p0 p1 p2 by (auto simp: g1_def g2_def)
  qed
  have a: "phase (ticks h 3 g) = 3 * (1 / 4)"
    using phase_progression [of g "1/4" 3 h] p0 ps nw by simp
  have b: "phase (tick h (ticks h 4 g)) = 0"
    using phase_progression [of g4 "1/4" 0 h] p4 by (simp add: wraps_def t4)
  show ?thesis using a b by (simp add: g_def h_def o1_def)
qed

text \<open>
  Claim C2 (channel cycling). The channel is 0 after construction and lies in
  \<open>{0, 1, 2}\<close> in every reachable state; a frame that is a wrap event moves it one step
  along 0, 1, 2, 0, ..., and a frame that is not leaves it unchanged.
\<close>

theorem channel_cycling:
  "(Glitcher h0 querySelector options = Inr g0 \<longrightarrow> channel g0 = 0)
   \<and> (reachable g \<longrightarrow>
        channel g \<in> {0, 1, 2}
        \<and> channel (tick h g) \<in> {0, 1, 2}
        \<and> (wraps g \<longrightarrow> channel (tick h g) = (channel g + 1) mod 3)
        \<and> (\<not> wraps g \<longrightarrow> channel (tick h g) = channel g))"
proof (intro conjI impI)
  assume "Glitcher h0 querySelector options = Inr g0"
  then show "channel g0 = 0" by (rule Glitcher_fields)
next
  assume "reachable g"
  then have "channel g < 3"
    using reachable_well_formed [of g] by (simp add: well_formed_def)
  then have c: "channel g = 0 \<or> channel g = 1 \<or> channel g = 2" by arith
  then show "channel g \<in> {0, 1, 2}" by simp
  from c show "channel (tick h g) \<in> {0, 1, 2}" by (auto simp: tick_channel)
  { assume "wraps g"
    with c show "channel (tick h g) = (channel g + 1) mod 3"
      by (auto simp: tick_channel) }
  { assume "\<not> wraps g"
    then show "channel (tick h g) = channel g" by (simp add: tick_channel) }
qed

theorem channel_cycling_witness:
  "channel (example_glitcher ((no_options ''HI'')\<lparr>opt_phaseStep := Some 1\<rparr>)) = 0
   \<and> channel (tick example_host
         (example_glitcher ((no_options ''HI'')\<lparr>opt_phaseStep := Some 1\<rparr>))) = 0
   \<and> channel (tick example_host (tick example_host
         (example_glitcher ((no_options ''HI'')\<lparr>opt_phaseStep := Some 1\<rparr>)))) = 1"
proof -
  define o1 where "o1 = (no_options ''HI'')\<lparr>opt_phaseStep := Some 1\<rparr>"
  define g where "g = example_glitcher o1"
  define h where "h = example_host"
  define g1 where "g1 = tick h g"
  have ok: "find (out_of_range o1) bounded_options = None"
    by (simp add: o1_def bounded_options_def out_of_range_def no_options_def)
  have con: "Glitcher h ''#glitch'' o1 = Inr g"
    unfolding h_def g_def by (rule example_constructed [OF ok])
  note f = Glitcher_fields [OF con]
  have ps: "phaseStep g = 1"
    using f(5) [of PhaseStep] by (simp add: chosen_def o1_def no_options_def)
  have r0: "reachable g" using con by (rule reachable.constructed)
  have r1: "reachable g1"
    unfolding g1_def h_def using r0 example_random_ok by (rule reachable.frame)
  have w0: "\<not> wraps g" using f(1) ps by (simp add: wraps_def)
  have p1: "phase g1 = 1" unfolding g1_def using f(1) ps w0 by (simp add: tick_phase)
  have w1: "wraps g1" using p1 ps by (simp add: wraps_def g1_def)
  have a: "channel g = 0"
    using channel_cycling [of h "''#glitch''" o1 g g h] con by simp
  have b: "channel g1 = 0"
    using channel_cycling [of h "''#glitch''" o1 g g h] r0 w0 a by (simp add: g1_def)
  have c: "channel (tick h g1) = 1"
    using channel_cycling [of h "''#glitch''" o1 g g1 h] r1 w1 b by simp
  show ?thesis using a b c by (simp add: g_def h_def o1_def g1_def)
qed

lemma ticks_no_wrap_amplitude:
  "(\<forall>j<k. \<not> wraps (ticks h j g)) \<Longrightarrow> amplitude (ticks h k g) = amplitude g"
  by (induction k) (simp_all add: tick_amplitude)

text \<open>
  Claim C3 (amplitude resampling). A frame that is not a wrap event leaves the amplitude
  unchanged, and so does any run of such frames; a frame that is a wrap event sets it to
  \<open>amplitudeBase + amplitudeRange * r\<close> for the next random value \<open>r\<close>, which in a
  reachable state and for \<open>r\<close> in \<open>[0,1)\<close> lies between \<open>amplitudeBase\<close> and
  \<open>amplitudeBase + amplitudeRange\<close>.
\<close>

theorem amplitude_resampling:
  "(\<not> wraps g \<longrightarrow> amplitude (tick h g) = amplitude g)
   \<and> ((\<forall>j<k. \<not> wraps (ticks h j g)) \<longrightarrow> amplitude (ticks h k g) = amplitude g)
   \<and> (wraps g \<longrightarrow>
        amplitude (tick h g) = amplitudeBase g + amplitudeRange g * random h (drawn g))
   \<and> (wraps g \<and> reachable g \<and> 0 \<le> random h (drawn g) \<and> random h (drawn g) < 1 \<longrightarrow>
        amplitudeBase g \<le> amplitude (tick h g)
        \<and> amplitude (tick h g) \<le> amplitudeBase g + amplitudeRange g)"
proof (intro conjI impI)
  assume "\<forall>j<k. \<not> wraps (ticks h j g)"
  then show "amplitude (ticks h k g) = amplitude g" by (rule ticks_no_wrap_amplitude)
next
  assume a: "wraps g \<and> reachable g \<and> 0 \<le> random h (drawn g) \<and> random h (drawn g) < 1"
  then have r: "0 \<le> amplitudeRange g"
    using reachable_well_formed [of g] by (simp add: well_formed_def)
  with a have "0 \<le> amplitudeRange g * random h (drawn g)"
    and "amplitudeRange g * random h (drawn g) \<le> amplitudeRange g"
    by (simp_all add: mult_left_le)
  with a show "amplitudeBase g \<le> amplitude (tick h g)"
    and "amplitude (tick h g) \<le> amplitudeBase g + amplitudeRange g"
    by (simp_all add: tick_amplitude)
qed (simp_all add: tick_amplitude)

theorem amplitude_resampling_witness:
  "amplitude (ticks example_host 2
      (example_glitcher ((no_options ''HI'')\<lparr>opt_phaseStep := Some (1/2)\<rparr>))) = 0
   \<and> amplitude (tick example_host (ticks example_host 2
      (example_glitcher ((no_options ''HI'')\<lparr>opt_phaseStep := Some (1/2)\<rparr>)))) = 2 + 2 * (1 / 2)
   \<and> 2 \<le> amplitude (tick example_host (ticks example_host 2
      (example_glitcher ((no_options ''HI'')\<lparr>opt_phaseStep := Some (1/2)\<rparr>))))
   \<and> amplitude (tick example_host (ticks example_host 2
      (example_glitcher ((no_options ''HI'')\<lparr>opt_phaseStep := Some (1/2)\<rparr>)))) \<le> 2 + 2"
proof -
  define o1 where "o1 = (no_options ''HI'')\<lparr>opt_phaseStep := Some (1/2)\<rparr>"
  define g where "g = example_glitcher o1"
  define h where "h = example_host"
  define g1 where "g1 = tick h g"
  define g2 where "g2 = tick h g1"
  have ok: "find (out_of_range o1) bounded_options = None"
    by (simp add: o1_def bounded_options_def out_of_range_def no_options_def)
  have con: "Glitcher h ''#glitch'' o1 = Inr g"
    unfolding h_def g_def by (rule example_constructed [OF ok])
  note f = Glitcher_fields [OF con]
  have ps: "phaseStep g = 1 / 2" and ab: "amplitudeBase g = 2" and ar: "amplitudeRange g = 2"
    using f(5) [of PhaseStep] f(5) [of AmplitudeBase] f(5) [of AmplitudeRange]
    by (simp_all add: chosen_def o1_def no_options_def)
  have hr: "random_ok h" unfolding h_def by (rule example_random_ok)
  have r0: "reachable g" using con by (rule reachable.constructed)
  have r1: "reachable g1" unfolding g1_def using r0 hr by (rule reachable.frame)
  have r2: "reachable g2" unfolding g2_def using r1 hr by (rule reachable.frame)
  have w0: "\<not> wraps g" using f(1) ps by (simp add: wraps_def)
  have p1: "phase g1 = 1 / 2" unfolding g1_def using f(1) ps w0 by (simp add: tick_phase)
  have w1: "\<not> wraps g1" using p1 ps by (simp add: wraps_def g1_def)
  have p2: "phase g2 = 1" unfolding g2_def using p1 ps w1 by (simp add: tick_phase g1_def)
  have w2: "wraps g2" using p2 ps by (simp add: wraps_def g2_def g1_def)
  have t2: "ticks h 2 g = g2" by (simp add: numeral_eq_Suc g1_def g2_def)
  have nw: "\<forall>j<2. \<not> wraps (ticks h j g)"
  proof (intro allI impI)
    fix j :: nat assume "j < 2"
    then have "j = 0 \<or> j = Suc 0" by arith
    then show "\<not> wraps (ticks h j g)" using w0 w1 by (auto simp: g1_def)
  qed
  have c2: "amplitudeBase g2 = 2" "amplitudeRange g2 = 2"
    by (simp_all add: g2_def g1_def ab ar)
  have rnd: "random h (drawn g2) = 1 / 2" by (simp add: h_def example_host_def)
  have a: "amplitude (ticks h 2 g) = 0"
    using amplitude_resampling [of g h 2] nw f(3) by simp
  have b: "amplitude (tick h g2) = 2 + 2 * (1 / 2)"
    "2 \<le> amplitude (tick h g2)" "amplitude (tick h g2) \<le> 2 + 2"
    using amplitude_resampling [of g2 h 0] w2 r2 c2 rnd by simp_all
  show ?thesis using a b by (simp add: t2 [symmetric] g_def h_def o1_def)
qed

section \<open>Configuration\<close>

text \<open>
  Claim C7 (configuration validation). When a bounded option is supplied with a value
  below its lower or above its upper bound, construction fails with the error that names
  an out-of-range field and its valid range: the field itself when no option checked
  before it is out of range too. When every supplied value lies within its bounds, the
  bounds included, construction succeeds.
\<close>

theorem configuration_validation:
  "(out_of_range options f \<longrightarrow>
      (\<exists>f'. out_of_range options f' \<and>
         Glitcher h querySelector options = Inl (ConfigurationError f')))
   \<and> (out_of_range options f
        \<and> (\<forall>f' \<in> set (takeWhile (\<lambda>x. x \<noteq> f) bounded_options). \<not> out_of_range options f')
      \<longrightarrow> Glitcher h querySelector options =
            Inl (Error (option_name f @ '' must be in range '' @ range_text f)))
   \<and> ((\<forall>f'. case supplied options f' of
               None \<Rightarrow> True
             | Some v \<Rightarrow> lower_bound f' \<le> v \<and> v \<le> upper_bound f')
      \<longrightarrow> (\<exists>g. Glitcher h querySelector options = Inr g))"
proof (intro conjI impI)
  assume a: "out_of_range options f"
  have "f \<in> set bounded_options" by (cases f) (simp_all add: bounded_options_def)
  with a obtain f' where "find (out_of_range options) bounded_options = Some f'"
    by (cases "find (out_of_range options) bounded_options") (auto simp: find_None_iff)
  moreover from this have "out_of_range options f'"
    by (auto simp: find_Some_iff)
  ultimately show "\<exists>f'. out_of_range options f' \<and>
      Glitcher h querySelector options = Inl (ConfigurationError f')"
    by (auto intro: Glitcher_fails)
next
  assume "out_of_range options f
    \<and> (\<forall>f' \<in> set (takeWhile (\<lambda>x. x \<noteq> f) bounded_options). \<not> out_of_range options f')"
  then have "find (out_of_range options) bounded_options = Some f"
    by (cases f) (simp_all add: bounded_options_def)
  then show "Glitcher h querySelector options =
      Inl (Error (option_name f @ '' must be in range '' @ range_text f))"
    using Glitcher_fails [of options f h querySelector] by (simp add: ConfigurationError_def)
next
  assume a: "\<forall>f'. case supplied options f' of
      None \<Rightarrow> True | Some v \<Rightarrow> lower_bound f' \<le> v \<and> v \<le> upper_bound f'"
  have "\<not> out_of_range options f'" for f'
    using a [rule_format, of f'] by (auto simp: out_of_range_def split: option.splits)
  then have "find (out_of_range options) bounded_options = None"
    by (simp add: find_None_iff)
  then show "\<exists>g. Glitcher h querySelector options = Inr g"
    by (rule Glitcher_succeeds)
qed

theorem configuration_validation_witness:
  "Glitcher example_host ''#glitch'' ((no_options ''HI'')\<lparr>opt_amplitudeBase := Some 6\<rparr>)
     = Inl (Error ''amplitudeBase must be in range [0,5]'')
   \<and> Glitcher example_host ''#glitch'' ((no_options ''HI'')\<lparr>opt_glitchThreshold := Some (- 1 / 10)\<rparr>)
     = Inl (Error ''glitchThreshold must be in range [0,1]'')
   \<and> (\<exists>g. Glitcher example_host ''#glitch''
         \<lparr>opt_text = ''HI'', opt_fontFamily = None, opt_fontWeight = None,
          opt_phaseStep = Some 1, opt_alphaMin = Some 0, opt_amplitudeBase = Some 0,
          opt_amplitudeRange = Some 5, opt_glitchAmplitude = Some 100,
          opt_glitchThreshold = Some 1\<rparr> = Inr g)"
proof -
  have a: "Glitcher example_host ''#glitch'' ((no_options ''HI'')\<lparr>opt_amplitudeBase := Some 6\<rparr>)
     = Inl (Error ''amplitudeBase must be in range [0,5]'')"
    using configuration_validation [of "(no_options ''HI'')\<lparr>opt_amplitudeBase := Some 6\<rparr>"
        AmplitudeBase example_host "''#glitch''"]
    by (simp add: out_of_range_def no_options_def bounded_options_def)
  have b: "Glitcher example_host ''#glitch'' ((no_options ''HI'')\<lparr>opt_glitchThreshold := Some (- 1 / 10)\<rparr>)
     = Inl (Error ''glitchThreshold must be in range [0,1]'')"
    using configuration_validation [of "(no_options ''HI'')\<lparr>opt_glitchThreshold := Some (- 1 / 10)\<rparr>"
        GlitchThreshold example_host "''#glitch''"]
    by (simp add: out_of_range_def no_options_def bounded_options_def)
  have "case supplied \<lparr>opt_text = ''HI'', opt_fontFamily = None, opt_fontWeight = None,
          opt_phaseStep = Some 1, opt_alphaMin = Some 0, opt_amplitudeBase = Some 0,
          opt_amplitudeRange = Some 5, opt_glitchAmplitude = Some 100,
          opt_glitchThreshold = Some 1\<rparr> f' of
      None \<Rightarrow> True | Some v \<Rightarrow> lower_bound f' \<le> v \<and> v \<le> upper_bound f'" for f'
    by (cases f') simp_all
  then have c: "\<exists>g. Glitcher example_host ''#glitch''
         \<lparr>opt_text = ''HI'', opt_fontFamily = None, opt_fontWeight = None,
          opt_phaseStep = Some 1, opt_alphaMin = Some 0, opt_amplitudeBase = Some 0,
          opt_amplitudeRange = Some 5, opt_glitchAmplitude = Some 100,
          opt_glitchThreshold = Some 1\<rparr> = Inr g"
    using configuration_validation [of "\<lparr>opt_text = ''HI'', opt_fontFamily = None, opt_fontWeight = None,
          opt_phaseStep = Some 1, opt_alphaMin = Some 0, opt_amplitudeBase = Some 0,
          opt_amplitudeRange = Some 5, opt_glitchAmplitude = Some 100,
          opt_glitchThreshold = Some 1\<rparr>" PhaseStep example_host "''#glitch''"]
    by blast
  show ?thesis using a b c by blast
qed

text \<open>
  Claim C8 (defaults). A successful construction gives every omitted field its documented
  default, and construction succeeds when every bounded option is omitted.
\<close>

theorem documented_defaults:
  "(Glitcher h querySelector options = Inr g \<longrightarrow>
      (opt_phaseStep options = None \<longrightarrow> phaseStep g = 0.05)
      \<and> (opt_amplitudeBase options = None \<longrightarrow> amplitudeBase g = 2.0)
      \<and> (opt_amplitudeRange options = None \<longrightarrow> amplitudeRange g = 2.0)
      \<and> (opt_alphaMin options = None \<longrightarrow> alphaMin g = 0.8)
      \<and> (opt_glitchAmplitude options = None \<longrightarrow> glitchAmplitude g = 20.0)
      \<and> (opt_glitchThreshold options = None \<longrightarrow> glitchThreshold g = 0.9)
      \<and> (opt_fontFamily options = None \<longrightarrow> fontFamily g = ''Arial'')
      \<and> (opt_fontWeight options = None \<longrightarrow> fontWeight g = 500))
   \<and> ((\<forall>f. supplied options f = None) \<longrightarrow> (\<exists>g. Glitcher h querySelector options = Inr g))"
proof (intro conjI impI)
  assume "\<forall>f. supplied options f = None"
  then have "find (out_of_range options) bounded_options = None"
    by (simp add: find_None_iff out_of_range_def)
  then show "\<exists>g. Glitcher h querySelector options = Inr g"
    by (rule Glitcher_succeeds)
next
  assume a: "Glitcher h querySelector options = Inr g"
  note f = Glitcher_fields [OF a]
  { assume "opt_phaseStep options = None"
    then show "phaseStep g = 0.05" using f(5) [of PhaseStep] by (simp add: chosen_def) }
  { assume "opt_amplitudeBase options = None"
    then show "amplitudeBase g = 2.0" using f(5) [of AmplitudeBase] by (simp add: chosen_def) }
  { assume "opt_amplitudeRange options = None"
    then show "amplitudeRange g = 2.0" using f(5) [of AmplitudeRange] by (simp add: chosen_def) }
  { assume "opt_alphaMin options = None"
    then show "alphaMin g = 0.8" using f(5) [of AlphaMin] by (simp add: chosen_def) }
  { assume "opt_glitchAmplitude options = None"
    then show "glitchAmplitude g = 20.0"
      using f(5) [of GlitchAmplitude] by (simp add: chosen_def) }
  { assume "opt_glitchThreshold options = None"
    then show "glitchThreshold g = 0.9"
      using f(5) [of GlitchThreshold] by (simp add: chosen_def) }
  { assume "opt_fontFamily options = None"
    then show "fontFamily g = ''Arial''" using f(13) by simp }
  { assume "opt_fontWeight options = None"
    then show "fontWeight g = 500" using f(14) by simp }
qed

theorem documented_defaults_witness:
  "Glitcher example_host ''#glitch'' (no_options ''HI'') = Inr (example_glitcher (no_options ''HI''))
   \<and> phaseStep (example_glitcher (no_options ''HI'')) = 5 / 100
   \<and> amplitudeBase (example_glitcher (no_options ''HI'')) = 2
   \<and> amplitudeRange (example_glitcher (no_options ''HI'')) = 2
   \<and> alphaMin (example_glitcher (no_options ''HI'')) = 8 / 10
   \<and> glitchAmplitude (example_glitcher (no_options ''HI'')) = 20
   \<and> glitchThreshold (example_glitcher (no_options ''HI'')) = 9 / 10
   \<and> fontFamily (example_glitcher (no_options ''HI'')) = ''Arial''
   \<and> fontWeight (example_glitcher (no_options ''HI'')) = 500"
proof -
  have s: "\<forall>f. supplied (no_options ''HI'') f = None"
  proof
    fix f show "supplied (no_options ''HI'') f = None"
      by (cases f) (simp_all add: no_options_def)
  qed
  note d = documented_defaults [of example_host "''#glitch''" "no_options ''HI''"
      "example_glitcher (no_options ''HI'')"]
  from d s have "\<exists>g. Glitcher example_host ''#glitch'' (no_options ''HI'') = Inr g"
    by blast
  then have c: "Glitcher example_host ''#glitch'' (no_options ''HI'')
      = Inr (example_glitcher (no_options ''HI''))"
    by (auto simp: example_glitcher_def)
  have n: "opt_phaseStep (no_options ''HI'') = None" "opt_amplitudeBase (no_options ''HI'') = None"
    "opt_amplitudeRange (no_options ''HI'') = None" "opt_alphaMin (no_options ''HI'') = None"
    "opt_glitchAmplitude (no_options ''HI'') = None" "opt_glitchThreshold (no_options ''HI'') = None"
    "opt_fontFamily (no_options ''HI'') = None" "opt_fontWeight (no_options ''HI'') = None"
    by (simp_all add: no_options_def)
  show ?thesis using d c n by simp
qed

section \<open>Conversion to 32-bit integers\<close>

lemma wrap_int32:
  fixes t :: int
  assumes "- 2147483648 \<le> t" and "t < 2147483648"
  shows "(let m = t mod 4294967296 in if 2147483648 \<le> m then m - 4294967296 else m) = t"
proof (cases "0 \<le> t")
  case True
  then have "t mod 4294967296 = t" using assms(2) by simp
  then show ?thesis using assms(2) by (simp add: Let_def)
next
  case False
  have "(t + 4294967296) mod 4294967296 = t + 4294967296"
    using assms(1) False by (intro mod_pos_pos_trivial) linarith+
  moreover have "(t + 4294967296) mod 4294967296 = t mod 4294967296"
    by (rule mod_add_self2)
  ultimately have "t mod 4294967296 = t + 4294967296" by simp
  then show ?thesis using assms(1) by (simp add: Let_def)
qed

lemma trunc_bounds:
  assumes "- 2147483648 \<le> x" and "x < 2147483648"
  shows "- 2147483648 \<le> trunc x" and "trunc x < 2147483648"
proof -
  show "- 2147483648 \<le> trunc x"
  proof (cases "0 \<le> x")
    case True then show ?thesis by (simp add: trunc_def)
  next
    case False
    have "real_of_int (- 2147483648) \<le> x" using assms(1) by simp
    then have "- 2147483648 \<le> \<lceil>x\<rceil>"
      using le_of_int_ceiling [of x] by linarith
    with False show ?thesis by (simp add: trunc_def)
  qed
  show "trunc x < 2147483648"
  proof (cases "0 \<le> x")
    case True
    have "\<lfloor>x\<rfloor> < 2147483648" using assms(2) by (simp add: floor_less_iff)
    with True show ?thesis by (simp add: trunc_def)
  next
    case False
    then have "\<lceil>x\<rceil> \<le> 0" by (simp add: ceiling_le_iff)
    with False show ?thesis by (simp add: trunc_def)
  qed
qed

lemma ToInt32_small:
  assumes "- 2147483648 \<le> x" and "x < 2147483648"
  shows "ToInt32 x = trunc x"
  unfolding ToInt32_def using wrap_int32 [OF trunc_bounds [OF assms]]
  by (simp add: Let_def split: if_splits)

lemma shr_0_small: "- 2147483648 \<le> x \<Longrightarrow> x < 2147483648 \<Longrightarrow> shr x 0 = trunc x"
  by (simp add: shr_def ToInt32_small)

section \<open>Rounding to the nearest double\<close>

lemma round_half_even_int [simp]: "round_half_even (of_int k) = k"
  by (simp add: round_half_even_def)

lemma round_half_even_floor: "\<lfloor>q\<rfloor> \<le> round_half_even q"
  by (simp add: round_half_even_def Let_def)

lemma round_half_even_ceiling: "round_half_even q \<le> \<lfloor>q\<rfloor> + 1"
  by (simp add: round_half_even_def Let_def)

lemma round_half_even_mono:
  assumes "q \<le> q'"
  shows "round_half_even q \<le> round_half_even q'"
proof (cases "\<lfloor>q\<rfloor> = \<lfloor>q'\<rfloor>")
  case True
  then show ?thesis
    using assms by (auto simp: round_half_even_def Let_def)
next
  case False
  then have "\<lfloor>q\<rfloor> < \<lfloor>q'\<rfloor>" using assms floor_mono [of q q'] by linarith
  then have "round_half_even q \<le> \<lfloor>q'\<rfloor>"
    using round_half_even_ceiling [of q] by linarith
  then show ?thesis using round_half_even_floor [of q'] by linarith
qed

lemma round_half_even_ge: "of_int k \<le> q \<Longrightarrow> k \<le> round_half_even q"
  using round_half_even_mono [of "of_int k" q] by simp

lemma round_half_even_le: "q \<le> of_int k \<Longrightarrow> round_half_even q \<le> k"
  using round_half_even_mono [of q "of_int k"] by simp

lemma ulp_pos [simp]: "0 < ulp x"
  by (simp add: ulp_def)

lemma ulp_nonneg [simp]: "0 \<le> ulp x"
  by (simp add: ulp_def)

lemma fl_exact:
  assumes "x = ulp x * of_int k"
  shows "fl x = x"
proof -
  have "x / ulp x = of_int k"
    using assms ulp_pos [of x] by (metis less_irrefl nonzero_mult_div_cancel_left)
  then show ?thesis using assms by (simp add: fl_def)
qed

lemma binade_upper: "x \<noteq> 0 \<Longrightarrow> \<bar>x\<bar> < 2 powr (of_int (binade x) + 1)"
proof -
  assume "x \<noteq> 0"
  then have p: "0 < \<bar>x\<bar>" by simp
  have "\<bar>x\<bar> < 2 powr (of_int \<lfloor>log 2 \<bar>x\<bar>\<rfloor> + 1)"
    using floor_log_eq_powr_iff [OF p, of 2 "\<lfloor>log 2 \<bar>x\<bar>\<rfloor>"] by simp
  also have "\<dots> \<le> 2 powr (of_int (binade x) + 1)"
    by (intro powr_mono) (simp_all add: binade_def)
  finally show ?thesis .
qed

lemma binade_lower:
  assumes "x \<noteq> 0" and "- 1022 < binade x"
  shows "2 powr (of_int (binade x)) \<le> \<bar>x\<bar>"
proof -
  have p: "0 < \<bar>x\<bar>" using assms(1) by simp
  have "binade x = \<lfloor>log 2 \<bar>x\<bar>\<rfloor>" using assms(2) by (simp add: binade_def max_def split: if_splits)
  then show ?thesis
    using floor_log_eq_powr_iff [OF p, of 2 "\<lfloor>log 2 \<bar>x\<bar>\<rfloor>"] by simp
qed

lemma binade_mono:
  assumes "x \<noteq> 0" and "\<bar>x\<bar> \<le> \<bar>y\<bar>"
  shows "binade x \<le> binade y"
proof -
  have "log 2 \<bar>x\<bar> \<le> log 2 \<bar>y\<bar>" using assms by simp
  then have "\<lfloor>log 2 \<bar>x\<bar>\<rfloor> \<le> \<lfloor>log 2 \<bar>y\<bar>\<rfloor>" by (rule floor_mono)
  then show ?thesis unfolding binade_def by (intro max.mono order_refl)
qed

lemma binade_eq:
  assumes "2 powr (of_int e) \<le> \<bar>x\<bar>" and "\<bar>x\<bar> < 2 powr (of_int e + 1)" and "- 1022 \<le> e"
  shows "binade x = e"
proof -
  have "0 < 2 powr (real_of_int e)" by simp
  then have p: "0 < \<bar>x\<bar>" using assms(1) by linarith
  have "\<lfloor>log 2 \<bar>x\<bar>\<rfloor> = e"
    using floor_log_eq_powr_iff [OF p, of 2 e] assms by simp
  then show ?thesis using assms(3) by (simp add: binade_def)
qed

lemma ulp_scale: "ulp x * 9007199254740992 = 2 powr (of_int (binade x) + 1)"
proof -
  have "(9007199254740992::real) = 2 powr 53" by simp
  then have "ulp x * 9007199254740992 = 2 powr (of_int (binade x) - 52 + 53)"
    unfolding ulp_def by (simp only: powr_add)
  also have "of_int (binade x) - 52 + 53 = of_int (binade x) + (1::real)" by simp
  finally show ?thesis .
qed

lemma ulp_scale': "ulp x * 4503599627370496 = 2 powr (of_int (binade x))"
proof -
  have "(4503599627370496::real) = 2 powr 52" by simp
  then have "ulp x * 4503599627370496 = 2 powr (of_int (binade x) - 52 + 52)"
    unfolding ulp_def by (simp only: powr_add)
  also have "of_int (binade x) - 52 + 52 = (of_int (binade x) :: real)" by simp
  finally show ?thesis .
qed

lemma fl_nonneg:
  assumes "0 \<le> x"
  shows "0 \<le> fl x"
proof -
  have "of_int 0 \<le> x / ulp x" using assms by simp
  then have "0 \<le> round_half_even (x / ulp x)" by (rule round_half_even_ge)
  then have "0 \<le> real_of_int (round_half_even (x / ulp x))" by simp
  then show ?thesis unfolding fl_def by (intro mult_nonneg_nonneg) simp_all
qed

lemma fl_nonpos:
  assumes "x \<le> 0"
  shows "fl x \<le> 0"
proof -
  have "x / ulp x \<le> of_int 0" using assms by (simp add: divide_le_0_iff)
  then have "round_half_even (x / ulp x) \<le> 0" by (rule round_half_even_le)
  then have "real_of_int (round_half_even (x / ulp x)) \<le> 0" by simp
  then show ?thesis unfolding fl_def by (intro mult_nonneg_nonpos) simp_all
qed

lemma fl_upper:
  assumes "0 < x"
  shows "fl x \<le> 2 powr (of_int (binade x) + 1)"
proof -
  have "x < ulp x * 9007199254740992"
    using binade_upper [of x] assms unfolding ulp_scale by simp
  then have "x / ulp x \<le> of_int 9007199254740992"
    by (simp add: pos_divide_le_eq mult.commute)
  then have "round_half_even (x / ulp x) \<le> 9007199254740992" by (rule round_half_even_le)
  then have "real_of_int (round_half_even (x / ulp x)) \<le> 9007199254740992" by linarith
  then have "fl x \<le> ulp x * 9007199254740992" by (simp add: fl_def)
  then show ?thesis by (simp only: ulp_scale)
qed

lemma fl_lower:
  assumes "0 < x" and "- 1022 < binade x"
  shows "2 powr (of_int (binade x)) \<le> fl x"
proof -
  have "ulp x * 4503599627370496 \<le> x"
    using binade_lower [of x] assms unfolding ulp_scale' by simp
  then have "of_int 4503599627370496 \<le> x / ulp x"
    by (simp add: pos_le_divide_eq mult.commute)
  then have "4503599627370496 \<le> round_half_even (x / ulp x)" by (rule round_half_even_ge)
  then have "4503599627370496 \<le> real_of_int (round_half_even (x / ulp x))" by linarith
  then have "ulp x * 4503599627370496 \<le> fl x" by (simp add: fl_def)
  then show ?thesis by (simp only: ulp_scale')
qed


lemma fl_mono_pos:
  assumes "0 < x" and "x \<le> y"
  shows "fl x \<le> fl y"
proof (cases "binade x = binade y")
  case True
  then have u: "ulp x = ulp y" by (simp add: ulp_def)
  have "x / ulp y \<le> y / ulp y" using assms(2) by (simp add: divide_right_mono)
  then have "round_half_even (x / ulp y) \<le> round_half_even (y / ulp y)"
    by (rule round_half_even_mono)
  then show ?thesis unfolding fl_def u by (simp add: mult_left_mono)
next
  case False
  have "binade x \<le> binade y" using assms by (intro binade_mono) simp_all
  with False have lt: "binade x < binade y" by simp
  then have "- 1022 < binade y" by (simp add: binade_def)
  then have "2 powr (of_int (binade y)) \<le> fl y"
    using assms by (intro fl_lower) simp_all
  moreover have "fl x \<le> 2 powr (of_int (binade x) + 1)" using assms(1) by (rule fl_upper)
  moreover have "2 powr (of_int (binade x) + 1) \<le> (2::real) powr (of_int (binade y))"
    using lt by (intro powr_mono) simp_all
  ultimately show ?thesis by linarith
qed

lemma round_half_even_minus: "round_half_even (- q) = - round_half_even q"
proof (cases "q = of_int \<lfloor>q\<rfloor>")
  case True
  then obtain k where "q = of_int k" ..
  then have "round_half_even q = k" "round_half_even (- q) = - k"
    using round_half_even_int [of "- k"] by simp_all
  then show ?thesis by simp
next
  case False
  then have f: "\<lfloor>- q\<rfloor> = - \<lfloor>q\<rfloor> - 1"
    by (metis ceiling_altdef ceiling_def minus_diff_eq
        uminus_add_conv_diff minus_minus)
  have d: "0 < q - of_int \<lfloor>q\<rfloor>" using False by linarith
  show ?thesis
    unfolding round_half_even_def Let_def f using d by (auto simp: field_simps)
qed

lemma binade_minus [simp]: "binade (- x) = binade x"
  by (simp add: binade_def)

lemma ulp_minus [simp]: "ulp (- x) = ulp x"
  by (simp add: ulp_def)

lemma fl_minus: "fl (- x) = - fl x"
  by (simp add: fl_def round_half_even_minus)

lemma fl_mono:
  assumes "x \<le> y"
  shows "fl x \<le> fl y"
proof -
  consider "0 < x" | "x \<le> 0" "0 \<le> y" | "y < 0" by linarith
  then show ?thesis
  proof cases
    case 1
    then show ?thesis using assms by (rule fl_mono_pos)
  next
    case 2
    then show ?thesis using fl_nonpos [of x] fl_nonneg [of y] by linarith
  next
    case 3
    then have "fl (- y) \<le> fl (- x)" using assms by (intro fl_mono_pos) simp_all
    then show ?thesis by (simp add: fl_minus)
  qed
qed


lemma round_half_even_down:
  assumes "of_int f \<le> q" and "q < of_int f + 1 / 2"
  shows "round_half_even q = f"
proof -
  have "\<lfloor>q\<rfloor> = f" using assms by (intro floor_unique) simp_all
  then show ?thesis using assms by (simp add: round_half_even_def)
qed

lemma round_half_even_tie_odd:
  assumes "q = of_int f + 1 / 2" and "odd f"
  shows "round_half_even q = f + 1"
proof -
  have "\<lfloor>q\<rfloor> = f" using assms by (intro floor_unique) simp_all
  then show ?thesis using assms by (simp add: round_half_even_def)
qed

lemma fl_grid:
  fixes m :: nat
  assumes "2 ^ m \<le> \<bar>x\<bar>" and "\<bar>x\<bar> < 2 ^ (m + 1)" and "m \<le> 52"
  shows "fl x = of_int (round_half_even (x * 2 ^ (52 - m))) / 2 ^ (52 - m)"
proof -
  have p1: "(2::real) powr (of_int (int m)) = 2 ^ m"
    using powr_realpow [of 2 m] by simp
  have e: "real_of_int (int m) + 1 = real (m + 1)" by simp
  have p2: "(2::real) powr (of_int (int m) + 1) = 2 ^ (m + 1)"
    unfolding e by (rule powr_realpow) simp
  have b: "binade x = int m"
  proof (rule binade_eq)
    show "2 powr real_of_int (int m) \<le> \<bar>x\<bar>" unfolding p1 by (rule assms(1))
    show "\<bar>x\<bar> < 2 powr (real_of_int (int m) + 1)" unfolding p2 by (rule assms(2))
    show "- 1022 \<le> int m" by simp
  qed
  have "real_of_int (int m) - 52 = - real (52 - m)" using assms(3) by simp
  then have "ulp x = 2 powr (- real (52 - m))" by (simp only: ulp_def b)
  also have "\<dots> = 1 / 2 powr (real (52 - m))" by (rule powr_minus_divide)
  also have "\<dots> = 1 / 2 ^ (52 - m)"
    using powr_realpow [of 2 "52 - m"] by simp
  finally have u: "ulp x = 1 / 2 ^ (52 - m)" .
  show ?thesis unfolding fl_def u by simp
qed

lemma fl_int_grid:
  fixes m :: nat
  assumes "2 ^ m \<le> \<bar>of_int n :: real\<bar>" and "\<bar>of_int n :: real\<bar> < 2 ^ (m + 1)" and "m \<le> 52"
  shows "fl (of_int n) = of_int n"
proof -
  have "(of_int n :: real) * 2 ^ (52 - m) = of_int (n * 2 ^ (52 - m))" by simp
  then have "round_half_even (of_int n * 2 ^ (52 - m)) = n * 2 ^ (52 - m)"
    by (simp only: round_half_even_int)
  then show ?thesis unfolding fl_grid [OF assms] by simp
qed

lemma fl_40: "fl 40 = 40"
  using fl_int_grid [of 5 40] by simp

lemma fl_80: "fl 80 = 80"
  using fl_int_grid [of 6 80] by simp

lemma fl_30: "fl 30 = 30"
  using fl_int_grid [of 4 30] by simp

lemma fl_15: "fl 15 = 15"
  using fl_int_grid [of 3 15] by simp

lemma fl_0: "fl 0 = 0"
  using round_half_even_int [of 0] by (simp add: fl_def del: round_half_even_int)

lemma fl_top_40: "fl (40 * (1 - 1 / 2 ^ 53)) = 40 - 1 / 2 ^ 47"
proof -
  have "round_half_even (40 * (1 - 1 / 2 ^ 53) * 2 ^ 47) = 5629499534213119"
    by (rule round_half_even_down) simp_all
  then show ?thesis
    using fl_grid [of 5 "40 * (1 - 1 / 2 ^ 53)"] by simp
qed

lemma fl_top_80: "fl (40 + (40 - 1 / 2 ^ 47)) = 80"
proof -
  have "round_half_even ((40 + (40 - 1 / 2 ^ 47)) * 2 ^ 46) = 5629499534213119 + 1"
    by (rule round_half_even_tie_odd) simp_all
  then show ?thesis
    using fl_grid [of 6 "40 + (40 - 1 / 2 ^ 47)"] by simp
qed

lemma fl_top_30: "fl (30 * (1 - 1 / 2 ^ 53)) = 30 - 1 / 2 ^ 48"
proof -
  have "round_half_even (30 * (1 - 1 / 2 ^ 53) * 2 ^ 48) = 8444249301319679"
    by (rule round_half_even_down) simp_all
  then show ?thesis
    using fl_grid [of 4 "30 * (1 - 1 / 2 ^ 53)"] by simp
qed

lemma fl_top_15: "fl (- 15 + (30 - 1 / 2 ^ 48)) = 15 - 1 / 2 ^ 48"
proof -
  have "round_half_even ((- 15 + (30 - 1 / 2 ^ 48)) * 2 ^ 49) = 8444249301319678"
    by (rule round_half_even_down) simp_all
  then show ?thesis
    using fl_grid [of 3 "- 15 + (30 - 1 / 2 ^ 48)"] by simp
qed

section \<open>Scanline distortion\<close>

lemma fl_low_40: "fl (40 * (1 - 3 / 2 ^ 53)) = 40 - 1 / 2 ^ 46"
proof -
  have "round_half_even (40 * (1 - 3 / 2 ^ 53) * 2 ^ 47) = 5629499534213118"
    by (rule round_half_even_down) simp_all
  then show ?thesis
    using fl_grid [of 5 "40 * (1 - 3 / 2 ^ 53)"] by simp
qed

lemma fl_low_80: "fl (40 + (40 - 1 / 2 ^ 46)) = 80 - 1 / 2 ^ 46"
proof -
  have "round_half_even ((40 + (40 - 1 / 2 ^ 46)) * 2 ^ 46) = 5629499534213119"
    by (rule round_half_even_down) simp_all
  then show ?thesis
    using fl_grid [of 6 "40 + (40 - 1 / 2 ^ 46)"] by simp
qed

lemma ulp_below_one:
  assumes "1 / 2 \<le> \<bar>x\<bar>" and "\<bar>x\<bar> < 1"
  shows "ulp x = 1 / 2 ^ 53"
proof -
  have "(2::real) powr (of_int (- 1)) = 1 / 2" by (simp add: powr_minus_divide)
  moreover have "(2::real) powr (of_int (- 1) + 1) = 1" by simp
  ultimately have "binade x = - 1" using assms by (intro binade_eq) simp_all
  then have "ulp x = 2 powr (- 53)" by (simp add: ulp_def)
  also have "\<dots> = 1 / 2 powr 53" by (rule powr_minus_divide)
  finally show ?thesis by simp
qed

lemma double_below_one:
  assumes "is_double r" and "r < 1"
  shows "r \<le> 1 - 1 / 2 ^ 53"
proof (rule ccontr)
  assume "\<not> r \<le> 1 - 1 / 2 ^ 53"
  then have lo: "1 - 1 / 2 ^ 53 < r" by simp
  then have u: "ulp r = 1 / 2 ^ 53" using assms(2) by (intro ulp_below_one) simp_all
  define k where "k = round_half_even (r / (1 / 2 ^ 53))"
  have "1 / 2 ^ 53 * of_int k = r"
    using assms(1) unfolding is_double_def fl_def u k_def .
  then have r: "r * 2 ^ 53 = of_int k" by (simp add: field_simps)
  have "of_int (2 ^ 53 - 1) < r * 2 ^ 53" using lo by (simp add: field_simps)
  moreover have "r * 2 ^ 53 < of_int (2 ^ 53)" using assms(2) by simp
  ultimately have "2 ^ 53 - 1 < k" and "k < 2 ^ 53" unfolding r by linarith+
  then show False by linarith
qed

lemma is_double_half: "is_double (1 / 2)"
proof -
  have "ulp (1 / 2) = 1 / 2 ^ 53" by (rule ulp_below_one) simp_all
  then have "(1 / 2 :: real) = ulp (1 / 2) * of_int (2 ^ 52)" by simp
  then show ?thesis unfolding is_double_def by (rule fl_exact)
qed

lemma is_double_top: "is_double (1 - 1 / 2 ^ 53)"
proof -
  have "ulp (1 - 1 / 2 ^ 53) = 1 / 2 ^ 53" by (rule ulp_below_one) simp_all
  then have "(1 - 1 / 2 ^ 53 :: real) = ulp (1 - 1 / 2 ^ 53) * of_int (2 ^ 53 - 1)" by simp
  then show ?thesis unfolding is_double_def by (rule fl_exact)
qed


lemma scanline_s_value:
  assumes "scanlineBase g = 40" and "scanlineRange g = 40" and "0 \<le> r" and "r < 1"
  shows "40 \<le> fl (40 + fl (40 * r))" and "fl (40 + fl (40 * r)) \<le> 80"
    and "scanline_s g r = \<lfloor>fl (40 + fl (40 * r))\<rfloor>"
proof -
  have "0 \<le> fl (40 * r)" using assms(3) by (intro fl_nonneg) simp
  moreover have "fl (40 * r) \<le> fl 40" using assms(4) by (intro fl_mono) simp
  ultimately have a: "40 \<le> 40 + fl (40 * r)" "40 + fl (40 * r) \<le> 80"
    by (simp_all add: fl_40)
  show lo: "40 \<le> fl (40 + fl (40 * r))" using fl_mono [OF a(1)] by (simp add: fl_40)
  show hi: "fl (40 + fl (40 * r)) \<le> 80" using fl_mono [OF a(2)] by (simp add: fl_80)
  from lo hi show "scanline_s g r = \<lfloor>fl (40 + fl (40 * r))\<rfloor>"
    by (simp add: scanline_s_def assms(1,2) shr_0_small trunc_def)
qed

lemma scanline_s_range:
  assumes "scanlineBase g = 40" and "scanlineRange g = 40" and "0 \<le> r" and "r < 1"
  shows "40 \<le> scanline_s g r" and "scanline_s g r \<le> 80"
  using scanline_s_value [OF assms] by (simp_all add: le_floor_iff floor_le_iff)

lemma scanline_s_below:
  assumes "scanlineBase g = 40" and "scanlineRange g = 40" and "0 \<le> r"
    and "r \<le> 1 - 3 / 2 ^ 53"
  shows "scanline_s g r < 80"
proof -
  have r1: "r < 1" using assms(4) by (simp add: field_simps)
  have "fl (40 * r) \<le> fl (40 * (1 - 3 / 2 ^ 53))" using assms(4) by (intro fl_mono) simp
  then have "fl (40 * r) \<le> 40 - 1 / 2 ^ 46" unfolding fl_low_40 .
  then have "40 + fl (40 * r) \<le> 40 + (40 - 1 / 2 ^ 46)" by linarith
  then have "fl (40 + fl (40 * r)) \<le> fl (40 + (40 - 1 / 2 ^ 46))" by (rule fl_mono)
  then have "fl (40 + fl (40 * r)) \<le> 80 - 1 / 2 ^ 46" unfolding fl_low_80 .
  then have "fl (40 + fl (40 * r)) < 80" by simp
  then show ?thesis
    unfolding scanline_s_value(3) [OF assms(1-3) r1] by (simp add: floor_less_iff)
qed

lemma scanline_s_top:
  assumes "scanlineBase g = 40" and "scanlineRange g = 40"
  shows "scanline_s g (1 - 1 / 2 ^ 53) = 80"
proof -
  have "scanline_s g (1 - 1 / 2 ^ 53) = \<lfloor>fl (40 + fl (40 * (1 - 1 / 2 ^ 53)))\<rfloor>"
    using assms by (intro scanline_s_value) simp_all
  then show ?thesis by (simp only: fl_top_40 fl_top_80) simp
qed

lemma scanline_x_range:
  assumes "scanlineShift g = 15" and "is_double r" and "0 \<le> r" and "r < 1"
  shows "- 15 \<le> scanline_x g r" and "scanline_x g r < 15"
proof -
  let ?v = "fl (- 15 + fl (30 * r))"
  have r: "r \<le> 1 - 1 / 2 ^ 53" using assms(2,4) by (rule double_below_one)
  have "0 \<le> fl (30 * r)" using assms(3) by (intro fl_nonneg) simp
  moreover have "fl (30 * r) \<le> fl (30 * (1 - 1 / 2 ^ 53))" using r by (intro fl_mono) simp
  then have "fl (30 * r) \<le> 30 - 1 / 2 ^ 48" unfolding fl_top_30 .
  ultimately have a: "- 15 \<le> - 15 + fl (30 * r)"
    "- 15 + fl (30 * r) \<le> - 15 + (30 - 1 / 2 ^ 48)"
    by linarith+
  have "fl (- 15) = - 15" using fl_minus [of 15] by (simp add: fl_15)
  then have lo: "- 15 \<le> ?v" using fl_mono [OF a(1)] by simp
  have "?v \<le> 15 - 1 / 2 ^ 48" using fl_mono [OF a(2)] unfolding fl_top_15 .
  then have hi: "?v < 15" by simp
  have x: "scanline_x g r = trunc ?v"
    using lo hi by (simp add: scanline_x_def assms(1) fl_30 shr_0_small)
  show "- 15 \<le> scanline_x g r"
  proof (cases "0 \<le> ?v")
    case True
    then have "0 \<le> \<lfloor>?v\<rfloor>" by simp
    with True show ?thesis unfolding x trunc_def by simp
  next
    case False
    have "real_of_int (- 15) \<le> ?v" using lo by simp
    then have "- 15 \<le> \<lceil>?v\<rceil>" using le_of_int_ceiling [of ?v] by linarith
    with False show ?thesis unfolding x trunc_def by simp
  qed
  show "scanline_x g r < 15"
  proof (cases "0 \<le> ?v")
    case True
    have "\<lfloor>?v\<rfloor> < 15" using hi by (simp add: floor_less_iff)
    with True show ?thesis unfolding x trunc_def by simp
  next
    case False
    then have "\<lceil>?v\<rceil> \<le> 0" by (simp add: ceiling_le_iff)
    with False show ?thesis unfolding x trunc_def by simp
  qed
qed


lemma renderScanline_calls:
  "calls (this_context (renderScanline h g)) =
     calls (this_context g) @
       [PutImageData
          (let d = getImageData h 0 (scanline_y g (random h (drawn g))) (width g) 1
           in brighten (length d) (scanline_s g (random h (drawn g + 1))) d)
          (scanline_x g (random h (drawn g + 2)))
          (scanline_y g (random h (drawn g)))]"
  by (simp add: renderScanline_def Math_random_def Let_def putImageData_def
      scanline_y_def scanline_s_def scanline_x_def)

text \<open>
  Claim C9 (scanline sample ranges), in the form that holds of the code. In every
  reachable state \<open>scanlineBase\<close>, \<open>scanlineRange\<close> and \<open>scanlineShift\<close> are 40, 40 and 15.
  For a random value that is a double in \<open>[0,1)\<close> the brightness offset lies in the closed
  interval from \<open>scanlineBase\<close> to \<open>scanlineBase + scanlineRange\<close>, that is in \<open>[40, 80]\<close>:
  it is below 80 unless the random value is one of the two doubles nearest to 1, for which
  the sum rounds to 80. The displacement lies in \<open>[- scanlineShift, scanlineShift)\<close>, that
  is in \<open>[-15, 15)\<close>. These are the offset and displacement of the row that
  \<^verbatim>\<open>renderScanline\<close> writes back.
\<close>

theorem scanline_ranges:
  "(reachable g \<and> is_double r \<and> 0 \<le> r \<and> r < 1 \<longrightarrow>
      scanlineBase g = 40 \<and> scanlineRange g = 40 \<and> scanlineShift g = 15
      \<and> scanlineBase g \<le> of_int (scanline_s g r)
      \<and> of_int (scanline_s g r) \<le> scanlineBase g + scanlineRange g
      \<and> 40 \<le> scanline_s g r \<and> scanline_s g r \<le> 80
      \<and> (r \<le> 1 - 3 / 2 ^ 53 \<longrightarrow> scanline_s g r < 80)
      \<and> - scanlineShift g \<le> of_int (scanline_x g r)
      \<and> of_int (scanline_x g r) < scanlineShift g
      \<and> - 15 \<le> scanline_x g r \<and> scanline_x g r < 15)
   \<and> frame_calls g (renderScanline h g) =
       [PutImageData
          (let d = getImageData h 0 (scanline_y g (random h (drawn g))) (width g) 1
           in brighten (length d) (scanline_s g (random h (drawn g + 1))) d)
          (scanline_x g (random h (drawn g + 2)))
          (scanline_y g (random h (drawn g)))]"
proof (intro conjI impI)
  assume a: "reachable g \<and> is_double r \<and> 0 \<le> r \<and> r < 1"
  then have c: "scanlineBase g = 40" "scanlineRange g = 40" "scanlineShift g = 15"
    using reachable_well_formed [of g] by (simp_all add: well_formed_def)
  from a have r: "is_double r" "0 \<le> r" "r < 1" by simp_all
  note s = scanline_s_range [OF c(1,2) r(2,3)] and x = scanline_x_range [OF c(3) r]
  show "scanlineBase g = 40" "scanlineRange g = 40" "scanlineShift g = 15" by (fact c)+
  show "40 \<le> scanline_s g r" "scanline_s g r \<le> 80" by (fact s)+
  show "- 15 \<le> scanline_x g r" "scanline_x g r < 15" by (fact x)+
  have "real_of_int 40 \<le> of_int (scanline_s g r)"
    and "real_of_int (scanline_s g r) \<le> of_int 80"
    using s by (simp_all only: of_int_le_iff)
  then show "scanlineBase g \<le> of_int (scanline_s g r)"
    and "of_int (scanline_s g r) \<le> scanlineBase g + scanlineRange g"
    by (simp_all add: c)
  have "real_of_int (- 15) \<le> of_int (scanline_x g r)"
    and "real_of_int (scanline_x g r) < of_int 15"
    using x by (simp_all only: of_int_le_iff of_int_less_iff)
  then show "- scanlineShift g \<le> of_int (scanline_x g r)"
    and "of_int (scanline_x g r) < scanlineShift g"
    by (simp_all add: c)
  { assume "r \<le> 1 - 3 / 2 ^ 53"
    then show "scanline_s g r < 80" by (rule scanline_s_below [OF c(1,2) r(2)]) }
next
  show "frame_calls g (renderScanline h g) =
       [PutImageData
          (let d = getImageData h 0 (scanline_y g (random h (drawn g))) (width g) 1
           in brighten (length d) (scanline_s g (random h (drawn g + 1))) d)
          (scanline_x g (random h (drawn g + 2)))
          (scanline_y g (random h (drawn g)))]"
    by (simp add: frame_calls_def renderScanline_calls)
qed

theorem scanline_ranges_witness:
  "40 \<le> scanline_s (example_glitcher (no_options ''HI'')) (1 / 2)
   \<and> scanline_s (example_glitcher (no_options ''HI'')) (1 / 2) < 80
   \<and> - 15 \<le> scanline_x (example_glitcher (no_options ''HI'')) (1 / 2)
   \<and> scanline_x (example_glitcher (no_options ''HI'')) (1 / 2) < 15
   \<and> scanlineBase (example_glitcher (no_options ''HI'')) = 40
   \<and> scanlineRange (example_glitcher (no_options ''HI'')) = 40
   \<and> scanlineShift (example_glitcher (no_options ''HI'')) = 15"
proof -
  have "reachable (example_glitcher (no_options ''HI''))"
    by (rule example_reachable [OF no_options_find])
  then show ?thesis
    using scanline_ranges [of "example_glitcher (no_options ''HI'')" "1 / 2" example_host]
      is_double_half
    by simp
qed

theorem scanline_offset_counterexample:
  "is_double (1 - 1 / 2 ^ 53) \<and> (0 :: real) \<le> 1 - 1 / 2 ^ 53 \<and> (1 - 1 / 2 ^ 53 :: real) < 1
   \<and> scanlineBase (example_glitcher (no_options ''HI''))
       + scanlineRange (example_glitcher (no_options ''HI'')) = 80
   \<and> scanline_s (example_glitcher (no_options ''HI'')) (1 - 1 / 2 ^ 53) = 80"
proof -
  have "well_formed (example_glitcher (no_options ''HI''))"
    by (intro reachable_well_formed example_reachable no_options_find)
  then have c: "scanlineBase (example_glitcher (no_options ''HI'')) = 40"
    "scanlineRange (example_glitcher (no_options ''HI'')) = 40"
    by (simp_all add: well_formed_def)
  show ?thesis using is_double_top scanline_s_top [OF c] by (simp add: c)
qed

section \<open>What a frame paints\<close>

lemma renderChannels_eq:
  "renderChannels x1 x2 x3 g =
     g\<lparr>this_context := (this_context g)
        \<lparr>ctx_font := font g, fillStyle := ''rgb(0,0,255)'',
         globalCompositeOperation := compOp g,
         calls := calls (this_context g) @
           [FillText (this_text g) x1 (of_int (height g) / 2) ''rgb(255,0,0)''
              (globalCompositeOperation (this_context g)) (globalAlpha (this_context g)),
            FillText (this_text g) x2 (of_int (height g) / 2) ''rgb(0,255,0)''
              (compOp g) (globalAlpha (this_context g)),
            FillText (this_text g) x3 (of_int (height g) / 2) ''rgb(0,0,255)''
              (compOp g) (globalAlpha (this_context g))]\<rparr>\<rparr>"
  by (simp add: renderChannels_def Let_def fillText_def)

lemma renderScanline_eq:
  "renderScanline h g =
     g\<lparr>this_context := (this_context g)
          \<lparr>calls := calls (this_context g) @ [scanline_call h g (drawn g)]\<rparr>,
       drawn := drawn g + 3\<rparr>"
  by (simp add: renderScanline_def Math_random_def Let_def putImageData_def
      scanline_call_def scanline_y_def scanline_s_def scanline_x_def)

lemma render_calls:
  assumes "channel g < 3"
  shows "calls (this_context (render h g)) =
     calls (this_context g) @
       (let x0 = glitch_offset g (random h (drawn g));
            center = of_int (shr (of_int (width g)) 1);
            y = of_int (height g) / 2;
            a = alphaMin g + (1 - alphaMin g) * random h (drawn g + 1);
            red = (if channel g = 0 then center
                   else if channel g = 1 then center + x0 else center - x0);
            green = (if channel g = 0 then center + x0
                   else if channel g = 1 then center - x0 else center);
            blue = (if channel g = 0 then center - x0
                   else if channel g = 1 then center else center + x0)
        in [ClearRect 0 0 (of_int (width g)) (of_int (height g)),
            FillText (this_text g) red y ''rgb(255,0,0)''
              (globalCompositeOperation (this_context g)) a,
            FillText (this_text g) green y ''rgb(0,255,0)'' (compOp g) a,
            FillText (this_text g) blue y ''rgb(0,0,255)'' (compOp g) a,
            scanline_call h g (drawn g + 2)]) @
       (if 1 < \<lfloor>random h (drawn g + 5) * 2\<rfloor>
        then [scanline_call h g (drawn g + 6)] else [])"
proof -
  have c: "channel g = 0 \<or> channel g = 1 \<or> channel g = 2" using assms(1) by arith
  from c show ?thesis
    by (elim disjE)
      (simp_all add: render_def Let_def split_def Math_random_def renderChannels_eq
        renderScanline_eq clearRect_def add.commute
        scanline_call_def scanline_y_def scanline_s_def scanline_x_def)
qed

lemma render_mode:
  "channel g < 3 \<Longrightarrow> globalCompositeOperation (this_context (render h g)) = compOp g"
  by (simp add: render_def Let_def split_def Math_random_def renderChannels_eq
      renderScanline_eq clearRect_def)

lemma render_drawn:
  "drawn (render h g) =
     (if 1 < \<lfloor>random h (drawn g + 5) * 2\<rfloor> then drawn g + 9 else drawn g + 6)"
  by (simp add: render_def Let_def split_def Math_random_def renderChannels_eq
      renderScanline_eq clearRect_def add.commute)

lemma render_text_passes:
  assumes "channel g < 3" and "compOp g = Lighter"
  shows "text_passes (frame_calls g (render h g)) =
     passes (channel g) (of_int (shr (of_int (width g)) 1))
       (glitch_offset g (random h (drawn g))) (globalCompositeOperation (this_context g))"
  unfolding frame_calls_def render_calls [OF assms(1)]
  by (simp add: passes_def Let_def assms(2) scanline_call_def)

lemma render_scanlines:
  assumes "channel g < 3"
  shows "scanlines (frame_calls g (render h g)) =
     (if 1 < \<lfloor>random h (drawn g + 5) * 2\<rfloor> then 2 else 1)"
  unfolding frame_calls_def render_calls [OF assms(1)]
  by (simp add: Let_def scanline_call_def)

lemma coin_never: "r < 1 \<Longrightarrow> \<not> 1 < \<lfloor>r * 2\<rfloor>" for r :: real
  by (simp add: not_less floor_le_iff)


lemma reachable_channel: "reachable g \<Longrightarrow> channel g < 3"
  using reachable_well_formed [of g] by (simp add: well_formed_def)

text \<open>
  Claim C6 (the second scanline never fires). A random value \<open>r\<close> below 1 never makes
  \<open>floor (r * 2) > 1\<close> true, so a frame rendered in a reachable state with a random source
  in \<open>[0,1)\<close> makes exactly one scanline call and takes exactly six random values: the
  glitch trigger, the alpha, three for the scanline and the one of the guard.
\<close>

theorem second_scanline_never_fires:
  "((r :: real) < 1 \<longrightarrow> \<not> \<lfloor>r * 2\<rfloor> > 1)
   \<and> (reachable g \<and> random_ok h \<longrightarrow>
        scanlines (frame_calls g (render h g)) = 1
        \<and> drawn (render h g) = drawn g + 6
        \<and> scanlines (frame_calls g (tick h g)) = 1)"
proof (intro conjI impI)
  assume "r < 1"
  then show "\<not> \<lfloor>r * 2\<rfloor> > 1" by (rule coin_never)
next
  assume a: "reachable g \<and> random_ok h"
  then have c: "channel g < 3" by (simp add: reachable_channel)
  have r: "\<not> 1 \<le> random h n" for n
    using a by (simp add: random_ok_def not_le)
  show "scanlines (frame_calls g (render h g)) = 1"
    by (simp add: render_scanlines [OF c] r)
  show "drawn (render h g) = drawn g + 6"
    by (simp add: render_drawn r)
  have c': "channel (advance h g) < 3"
    using c by (auto simp: advance_def Let_def Math_random_def)
  have "frame_calls g (tick h g) = frame_calls (advance h g) (render h (advance h g))"
    by (simp add: frame_calls_def tick_def)
  then show "scanlines (frame_calls g (tick h g)) = 1"
    by (simp add: render_scanlines [OF c'] r)
qed

theorem second_scanline_never_fires_witness:
  "scanlines (frame_calls (example_glitcher (no_options ''HI''))
      (render example_host (example_glitcher (no_options ''HI'')))) = 1
   \<and> drawn (render example_host (example_glitcher (no_options ''HI''))) = 6
   \<and> \<not> \<lfloor>(1 / 2 :: real) * 2\<rfloor> > 1"
proof -
  have r: "reachable (example_glitcher (no_options ''HI''))"
    by (rule example_reachable [OF no_options_find])
  have d: "drawn (example_glitcher (no_options ''HI'')) = 0"
    by (rule Glitcher_fields [OF example_constructed [OF no_options_find]])
  show ?thesis
    using second_scanline_never_fires [of "1 / 2" "example_glitcher (no_options ''HI'')"
        example_host] r example_random_ok d
    by simp
qed
lemma passes_modes: "map (\<lambda>p. snd (snd p)) (passes ch c x m) = [m, Lighter, Lighter]"
  by (simp add: passes_def)

lemma advance_channel_bound: "channel g < 3 \<Longrightarrow> channel (advance h g) < 3"
  by (auto simp: advance_def Let_def Math_random_def)

lemma tick_mode:
  "channel g < 3 \<Longrightarrow> globalCompositeOperation (this_context (tick h g)) = compOp g"
  by (simp add: tick_def render_mode advance_channel_bound)

lemma tick_text_passes:
  assumes "channel g < 3" and "compOp g = Lighter"
  shows "text_passes (frame_calls g (tick h g)) =
     passes (channel (advance h g)) (of_int (shr (of_int (width g)) 1))
       (glitch_offset (advance h g) (random h (drawn (advance h g))))
       (globalCompositeOperation (this_context g))"
proof -
  have "frame_calls g (tick h g) = frame_calls (advance h g) (render h (advance h g))"
    by (simp add: frame_calls_def tick_def)
  then show ?thesis
    using render_text_passes [of "advance h g" h] assms
    by (simp add: advance_channel_bound)
qed


lemma entry_mode_by_frame:
  "map (\<lambda>p. snd (snd p))
     (text_passes (frame_calls (example_glitcher (no_options ''HI''))
        (tick example_host (example_glitcher (no_options ''HI''))))) =
     [SourceOver, Lighter, Lighter]
   \<and> map (\<lambda>p. snd (snd p))
     (text_passes (frame_calls (tick example_host (example_glitcher (no_options ''HI'')))
        (tick example_host (tick example_host (example_glitcher (no_options ''HI'')))))) =
     [Lighter, Lighter, Lighter]"
proof -
  define g where "g = example_glitcher (no_options ''HI'')"
  have con: "Glitcher example_host ''#glitch'' (no_options ''HI'') = Inr g"
    unfolding g_def by (rule example_constructed [OF no_options_find])
  have r: "reachable g" using con by (rule reachable.constructed)
  have r1: "reachable (tick example_host g)"
    using r example_random_ok by (rule reachable.frame)
  have w: "channel g < 3" "compOp g = Lighter"
    using reachable_well_formed [OF r] by (simp_all add: well_formed_def)
  have w1: "channel (tick example_host g) < 3" "compOp (tick example_host g) = Lighter"
    using reachable_well_formed [OF r1] by (simp_all add: well_formed_def)
  have m: "globalCompositeOperation (this_context g) = SourceOver"
    using con by (rule Glitcher_fields)
  have m1: "globalCompositeOperation (this_context (tick example_host g)) = Lighter"
    using w by (simp add: tick_mode)
  show ?thesis
    unfolding g_def [symmetric]
    by (simp only: tick_text_passes [OF w] tick_text_passes [OF w1] passes_modes m m1)
qed




lemma surface_snoc: "surface ink (cs @ [c]) = paint ink c (surface ink cs)"
  by (simp add: surface_def)

lemma surface_append: "surface ink (cs @ c # ds) = surface ink ((cs @ [c]) @ ds)"
  by simp









section \<open>The jitter offset\<close>








section \<open>Resize\<close>

lemma resize_context:
  "canvas g \<noteq> None \<Longrightarrow>
   this_context (resize h g) =
     default_context
       \<lparr>textAlign := ''center'', ctx_font := font (resize h g),
        calls := calls (this_context g) @ [ResetBitmap, ResetBitmap]\<rparr>"
  by (auto simp: resize_def Let_def reset_context_def default_context_def split: option.splits)

lemma resize_canvas_size:
  "canvas g \<noteq> None \<Longrightarrow>
   canvas (resize h g) = Some \<lparr>cv_width = offsetWidth h, cv_height = offsetHeight h\<rparr>"
  by (auto simp: resize_def Let_def split: option.splits)

lemma before_first_resize_eq:
  "initOptions example_host (no_options ''HI'') (new_object (no_options ''HI''))
     = Inr before_first_resize"
  by (simp add: before_first_resize_def initOptions_eq no_options_find)

lemma before_first_resize_fields:
  "textAlign (this_context before_first_resize) = ''start''"
  "canvas before_first_resize = Some \<lparr>cv_width = 300, cv_height = 150\<rparr>"
proof -
  note e = before_first_resize_eq [unfolded initOptions_eq no_options_find, simplified]
  show "textAlign (this_context before_first_resize) = ''start''"
    unfolding e [symmetric]
    by (simp add: init_sizes_def Let_def new_object_def default_context_def split: option.splits)
  show "canvas before_first_resize = Some \<lparr>cv_width = 300, cv_height = 150\<rparr>"
    unfolding e [symmetric] by simp
qed

text \<open>
  Claim C10 (what resize leaves alone), in the form that holds of the code. \<^verbatim>\<open>resize\<close> changes nothing but
  \<open>width\<close>, \<open>height\<close>, the canvas, \<open>textSize\<close>, \<open>font\<close>, \<open>textWidth\<close> and the drawing context:
  the phase, the channel, the amplitude, every configured option and the text are as
  before. The context does change: it is put back into its default state by the two
  assignments to the canvas dimensions, then its text alignment is set to
  \<open>center\<close> and its font to the new font.
\<close>

theorem resize_frame_property:
  "resize h g =
     g\<lparr>width := offsetWidth h, height := offsetHeight h, canvas := canvas (resize h g),
       textSize := textSize (resize h g), font := font (resize h g),
       textWidth := textWidth (resize h g), this_context := this_context (resize h g)\<rparr>
   \<and> phase (resize h g) = phase g \<and> channel (resize h g) = channel g
   \<and> amplitude (resize h g) = amplitude g
   \<and> phaseStep (resize h g) = phaseStep g \<and> amplitudeBase (resize h g) = amplitudeBase g
   \<and> amplitudeRange (resize h g) = amplitudeRange g \<and> alphaMin (resize h g) = alphaMin g
   \<and> glitchAmplitude (resize h g) = glitchAmplitude g
   \<and> glitchThreshold (resize h g) = glitchThreshold g
   \<and> fontFamily (resize h g) = fontFamily g \<and> fontWeight (resize h g) = fontWeight g
   \<and> this_text (resize h g) = this_text g
   \<and> (canvas g \<noteq> None \<longrightarrow>
        canvas (resize h g) = Some \<lparr>cv_width = offsetWidth h, cv_height = offsetHeight h\<rparr>
        \<and> this_context (resize h g) =
            default_context
              \<lparr>textAlign := ''center'', ctx_font := font (resize h g),
               calls := calls (this_context g) @ [ResetBitmap, ResetBitmap]\<rparr>)"
  using resize_frame [of h g] resize_context [of g h] resize_canvas_size [of g h]
  by simp

theorem resize_frame_property_witness:
  "textAlign (this_context (resize example_host before_first_resize)) = ''center''
   \<and> canvas (resize example_host before_first_resize) = Some \<lparr>cv_width = 1400, cv_height = 700\<rparr>
   \<and> phase (resize example_host before_first_resize) = phase before_first_resize
   \<and> channel (resize example_host before_first_resize) = channel before_first_resize
   \<and> amplitude (resize example_host before_first_resize) = amplitude before_first_resize"
  using resize_frame_property [of example_host before_first_resize]
  by (simp add: before_first_resize_fields example_host_def)

theorem resize_changes_context_counterexample:
  "textAlign (this_context before_first_resize) = ''start''
   \<and> textAlign (this_context (resize example_host before_first_resize)) = ''center''
   \<and> Glitcher example_host ''#glitch'' (no_options ''HI'')
       = Inr (resize example_host before_first_resize)"
proof -
  have "textAlign (this_context (resize example_host before_first_resize)) = ''center''"
    by (simp add: resize_context before_first_resize_fields)
  moreover have "Glitcher example_host ''#glitch'' (no_options ''HI'')
       = Inr (resize example_host before_first_resize)"
    by (simp add: Glitcher_def and_then_def before_first_resize_eq)
  ultimately show ?thesis by (simp add: before_first_resize_fields)
qed

end
